theory Spec2Isabelle
  imports Main "HOL-Library.Word" "HOL-Library.Monad_Syntax"
begin

unbundle bit_operations_syntax

section \<open>The heap of \<open>malloc.c\<close>\<close>

text \<open>
  The allocator stores block pointers in 4-byte words (\<open>WSIZE\<close> is ``the same as that of
  the header, footer, fwrd, bwrd pointers''), so it is a program for a 32-bit machine:
  \<open>void*\<close>, \<open>size_t\<close> and \<open>unsigned int\<close> are all 32-bit words, and arithmetic on them
  wraps around.
\<close>

type_synonym word32 = "32 word"
type_synonym addr = "32 word"

text \<open>
  The state: the memory (the word stored at each byte address), the bounds of the region
  obtained from the growth primitive (\<open>mem_heap\<close> its first byte, \<open>mem_brk\<close> the first
  byte after it, \<open>mem_max_addr\<close> the limit it cannot grow beyond), and the static
  variable \<open>FREE_LIST_ROOT\<close>.
\<close>

record heap =
  mem :: "addr \<Rightarrow> word32"
  mem_heap :: addr
  mem_brk :: addr
  mem_max_addr :: addr
  FREE_LIST_ROOT :: addr

definition WSIZE :: word32 where
  "WSIZE = 4"

definition DSIZE :: word32 where
  "DSIZE = 8"

definition DEFAULT_CHUNKSIZE :: word32 where
  "DEFAULT_CHUNKSIZE = 4096"

text \<open>The macro \<open>MAX\<close> is named \<open>MAX_of\<close> here, since \<open>MAX\<close> is syntax of HOL.\<close>

definition MAX_of :: "word32 \<Rightarrow> word32 \<Rightarrow> word32" where
  "MAX_of x y = (if x > y then x else y)"

definition PACK :: "word32 \<Rightarrow> word32 \<Rightarrow> word32" where
  "PACK sz alloc = sz OR alloc"

text \<open>
  \<open>READ\<close> and \<open>WRITE\<close> dereference an \<open>unsigned int*\<close>. The access is defined only for a
  4-byte aligned word that lies inside the region obtained from the growth primitive;
  anywhere else the behaviour of the C program is undefined, which the model returns as
  \<open>None\<close>. Every function below that touches memory therefore returns an option:
  \<open>None\<close> stands for undefined behaviour (or, for the search loop, for not returning).
\<close>

definition in_heap :: "heap \<Rightarrow> addr \<Rightarrow> bool" where
  "in_heap s p \<longleftrightarrow> p AND 3 = 0 \<and> mem_heap s \<le> p \<and> unat p + 4 \<le> unat (mem_brk s)"

definition READ :: "heap \<Rightarrow> addr \<Rightarrow> word32 option" where
  "READ s p = (if in_heap s p then Some (mem s p) else None)"

definition WRITE :: "addr \<Rightarrow> word32 \<Rightarrow> heap \<Rightarrow> heap option" where
  "WRITE p val s = (if in_heap s p then Some (s\<lparr>mem := (mem s)(p := val)\<rparr>) else None)"

definition GET_SIZE :: "heap \<Rightarrow> addr \<Rightarrow> word32 option" where
  "GET_SIZE s mp = do { w \<leftarrow> READ s mp; Some (w AND NOT 7) }"

definition GET_ALLOC :: "heap \<Rightarrow> addr \<Rightarrow> word32 option" where
  "GET_ALLOC s mp = do { w \<leftarrow> READ s mp; Some (w AND 1) }"

definition NEXTP :: "addr \<Rightarrow> addr" where
  "NEXTP bp = bp"

definition PREVP :: "addr \<Rightarrow> addr" where
  "PREVP bp = bp + WSIZE"

definition HDRP :: "addr \<Rightarrow> addr" where
  "HDRP bp = bp - WSIZE"

definition FTRP :: "heap \<Rightarrow> addr \<Rightarrow> addr option" where
  "FTRP s bp = do { sz \<leftarrow> GET_SIZE s (HDRP bp); Some (bp + sz - DSIZE) }"

definition NEXT_BLKP :: "heap \<Rightarrow> addr \<Rightarrow> addr option" where
  "NEXT_BLKP s bp = do { sz \<leftarrow> GET_SIZE s (bp - WSIZE); Some (bp + sz) }"

definition PREV_BLKP :: "heap \<Rightarrow> addr \<Rightarrow> addr option" where
  "PREV_BLKP s bp = do { sz \<leftarrow> GET_SIZE s (bp - DSIZE); Some (bp - sz) }"

text \<open>
  Modelled from the spec: the growth primitive \<open>mem_sbrk\<close>, which \<open>malloc.c\<close> calls but
  does not define. It ``extends the managed region by exactly byteCount bytes and returns
  the address immediately following the previous end of the region, or a failure sentinel
  if no more space is available''. The sentinel is \<open>(void*) -1\<close>, as \<open>mm_init\<close> and
  \<open>extend_heap\<close> test for it; space is available up to \<open>mem_max_addr\<close>. The contents of
  the new bytes are whatever the memory held.
\<close>

definition mem_sbrk :: "word32 \<Rightarrow> heap \<Rightarrow> addr \<times> heap" where
  "mem_sbrk incr s =
     (if unat (mem_brk s) + unat incr \<le> unat (mem_max_addr s)
      then (mem_brk s, s\<lparr>mem_brk := mem_brk s + incr\<rparr>)
      else (- 1, s))"

subsection \<open>The free list\<close>

text \<open>
  \<open>add_free\<close> and \<open>fb_patching\<close> take \<open>void** free_list_root\<close>; every call passes
  \<open>&FREE_LIST_ROOT\<close>, so \<open>*free_list_root\<close> is the field \<open>FREE_LIST_ROOT\<close> of the state.
\<close>

definition add_free :: "addr \<Rightarrow> heap \<Rightarrow> heap option" where
  "add_free bp s = do {
     s1 \<leftarrow> WRITE (PREVP bp) 0 s;
     if FREE_LIST_ROOT s1 \<noteq> 0 then do {
       root_next \<leftarrow> READ s1 (NEXTP (FREE_LIST_ROOT s1));
       s2 \<leftarrow> (if root_next \<noteq> 0 then WRITE (PREVP root_next) bp s1 else Some s1);
       s3 \<leftarrow> WRITE (NEXTP bp) root_next s2;
       Some (s3\<lparr>FREE_LIST_ROOT := bp\<rparr>)
     } else do {
       s2 \<leftarrow> WRITE (NEXTP bp) 0 s1;
       Some (s2\<lparr>FREE_LIST_ROOT := bp\<rparr>)
     }
   }"

definition fb_patching :: "addr \<Rightarrow> heap \<Rightarrow> heap option" where
  "fb_patching bp s = do {
     bp_prev \<leftarrow> READ s (PREVP bp);
     bp_next \<leftarrow> READ s (NEXTP bp);
     s1 \<leftarrow> (if bp_prev \<noteq> 0 then WRITE (NEXTP bp_prev) bp_next s
           else Some (s\<lparr>FREE_LIST_ROOT := bp_next\<rparr>));
     if bp_next \<noteq> 0 then WRITE (PREVP bp_next) bp_prev s1 else Some s1
   }"

subsection \<open>Coalescing\<close>

definition handle_free :: "addr \<Rightarrow> heap \<Rightarrow> (addr \<times> heap) option" where
  "handle_free bp s = do {
     prev_block \<leftarrow> PREV_BLKP s bp;
     next_block \<leftarrow> NEXT_BLKP s bp;
     prev_ftr \<leftarrow> FTRP s prev_block;
     prev_alloc \<leftarrow> GET_ALLOC s prev_ftr;
     next_alloc \<leftarrow> GET_ALLOC s (HDRP next_block);
     sz \<leftarrow> GET_SIZE s (HDRP bp);
     if prev_alloc \<noteq> 0 \<and> next_alloc \<noteq> 0 then do {
       s1 \<leftarrow> add_free bp s;
       Some (bp, s1)
     } else if prev_alloc \<noteq> 0 \<and> \<not> next_alloc \<noteq> 0 then do {
       s1 \<leftarrow> fb_patching next_block s;
       next_size \<leftarrow> GET_SIZE s1 (HDRP next_block);
       s2 \<leftarrow> WRITE (HDRP bp) (PACK (sz + next_size) 0) s1;
       next_ftr \<leftarrow> FTRP s2 next_block;
       s3 \<leftarrow> WRITE next_ftr (PACK (sz + next_size) 0) s2;
       s4 \<leftarrow> add_free bp s3;
       Some (bp, s4)
     } else if \<not> prev_alloc \<noteq> 0 \<and> next_alloc \<noteq> 0 then do {
       s1 \<leftarrow> fb_patching prev_block s;
       prev_size \<leftarrow> GET_SIZE s1 (HDRP prev_block);
       s2 \<leftarrow> WRITE (HDRP prev_block) (PACK (sz + prev_size) 0) s1;
       ftr \<leftarrow> FTRP s2 bp;
       s3 \<leftarrow> WRITE ftr (PACK (sz + prev_size) 0) s2;
       s4 \<leftarrow> add_free prev_block s3;
       Some (prev_block, s4)
     } else do {
       s1 \<leftarrow> fb_patching prev_block s;
       s2 \<leftarrow> fb_patching next_block s1;
       prev_size \<leftarrow> GET_SIZE s2 (HDRP prev_block);
       next_size \<leftarrow> GET_SIZE s2 (HDRP next_block);
       s3 \<leftarrow> WRITE (HDRP prev_block) (PACK (sz + prev_size + next_size) 0) s2;
       next_ftr \<leftarrow> FTRP s3 next_block;
       s4 \<leftarrow> WRITE next_ftr (PACK (sz + prev_size + next_size) 0) s3;
       s5 \<leftarrow> add_free prev_block s4;
       Some (prev_block, s5)
     }
   }"

subsection \<open>Bootstrap and growth\<close>

definition mm_init :: "heap \<Rightarrow> (int \<times> heap) option" where
  "mm_init s =
     (case mem_sbrk (4 * WSIZE) s of (heap_listp, s0) \<Rightarrow>
        if heap_listp = - 1 then Some (- 1, s0)
        else do {
          s1 \<leftarrow> WRITE heap_listp 0 s0;
          s2 \<leftarrow> WRITE (heap_listp + 1 * WSIZE) (PACK DSIZE 1) s1;
          s3 \<leftarrow> WRITE (heap_listp + 2 * WSIZE) (PACK DSIZE 1) s2;
          s4 \<leftarrow> WRITE (heap_listp + 3 * WSIZE) (PACK 0 1) s3;
          Some (0, s4)
        })"

definition extend_heap :: "word32 \<Rightarrow> heap \<Rightarrow> (addr \<times> heap) option" where
  "extend_heap words s =
     (let sz = (if words mod 2 \<noteq> 0 then (words + 1) * WSIZE else words * WSIZE)
      in case mem_sbrk sz s of (bp, s0) \<Rightarrow>
        if bp = - 1 then Some (0, s0)
        else do {
          s1 \<leftarrow> WRITE (HDRP bp) (PACK sz 0) s0;
          ftr \<leftarrow> FTRP s1 bp;
          s2 \<leftarrow> WRITE ftr (PACK sz 0) s1;
          next_block \<leftarrow> NEXT_BLKP s2 bp;
          s3 \<leftarrow> WRITE (HDRP next_block) (PACK 0 1) s2;
          handle_free bp s3
        })"

subsection \<open>Allocation\<close>

text \<open>
  The search loop of \<open>find_fit\<close> follows next-links until it finds a block that is large
  enough or reaches \<open>NULL\<close>; on a cyclic list of small blocks it never returns, which is
  the value \<open>None\<close>.
\<close>

partial_function (option) find_fit_loop :: "heap \<Rightarrow> word32 \<Rightarrow> addr \<Rightarrow> addr option" where
  "find_fit_loop s asize curr_free =
     (if curr_free \<noteq> 0 then do {
        cf_size \<leftarrow> GET_SIZE s (HDRP curr_free);
        if cf_size < asize then do {
          nxt \<leftarrow> READ s (NEXTP curr_free);
          find_fit_loop s asize nxt
        } else Some curr_free
      } else Some curr_free)"

definition find_fit :: "word32 \<Rightarrow> heap \<Rightarrow> addr option" where
  "find_fit asize s = find_fit_loop s asize (FREE_LIST_ROOT s)"

definition handle_malloc :: "addr \<Rightarrow> word32 \<Rightarrow> heap \<Rightarrow> heap option" where
  "handle_malloc bp asize s = do {
     cf_size \<leftarrow> GET_SIZE s (HDRP bp);
     s0 \<leftarrow> fb_patching bp s;
     if cf_size - asize < DSIZE * 2 then do {
       s1 \<leftarrow> WRITE (HDRP bp) (PACK cf_size 1) s0;
       ftr \<leftarrow> FTRP s1 bp;
       WRITE ftr (PACK cf_size 1) s1
     } else do {
       s1 \<leftarrow> WRITE (HDRP bp) (PACK asize 1) s0;
       ftr \<leftarrow> FTRP s1 bp;
       s2 \<leftarrow> WRITE ftr (PACK asize 1) s1;
       new_free \<leftarrow> NEXT_BLKP s2 bp;
       s3 \<leftarrow> WRITE (HDRP new_free) (PACK (cf_size - asize) 0) s2;
       new_ftr \<leftarrow> FTRP s3 new_free;
       s4 \<leftarrow> WRITE new_ftr (PACK (cf_size - asize) 0) s3;
       add_free new_free s4
     }
   }"

text \<open>The adjusted block size computed at the start of \<open>mm_malloc\<close>.\<close>

definition adjust_size :: "word32 \<Rightarrow> word32" where
  "adjust_size sz =
     (if sz \<le> DSIZE then 2 * DSIZE
      else ((sz + DSIZE + (DSIZE - 1)) div DSIZE) * DSIZE)"

definition mm_malloc :: "word32 \<Rightarrow> heap \<Rightarrow> (addr \<times> heap) option" where
  "mm_malloc sz s =
     (if sz = 0 then Some (0, s)
      else let asize = adjust_size sz in do {
        bp \<leftarrow> find_fit asize s;
        if bp \<noteq> 0 then do {
          s1 \<leftarrow> handle_malloc bp asize s;
          Some (bp, s1)
        } else do {
          (bp, s1) \<leftarrow> extend_heap (MAX_of asize DEFAULT_CHUNKSIZE div WSIZE) s;
          if bp = 0 then Some (0, s1)
          else do {
            s2 \<leftarrow> handle_malloc bp asize s1;
            Some (bp, s2)
          }
        }
      })"

subsection \<open>Deallocation and resizing\<close>

definition mm_free :: "addr \<Rightarrow> heap \<Rightarrow> heap option" where
  "mm_free bp s = do {
     sz \<leftarrow> GET_SIZE s (HDRP bp);
     s1 \<leftarrow> WRITE (HDRP bp) (PACK sz 0) s;
     ftr \<leftarrow> FTRP s1 bp;
     s2 \<leftarrow> WRITE ftr (PACK sz 0) s1;
     (merged, s3) \<leftarrow> handle_free bp s2;
     Some s3
   }"

text \<open>
  The body of \<open>mm_realloc\<close> is the comment \<open>//TBD\<close>: it executes no statement and
  reaches the closing brace without a \<open>return\<close>, so the heap is untouched and no pointer
  is returned (\<open>None\<close> in the first component).
\<close>

definition mm_realloc :: "addr \<Rightarrow> word32 \<Rightarrow> heap \<Rightarrow> addr option \<times> heap" where
  "mm_realloc ptr sz s = (None, s)"

section \<open>Observers of the heap\<close>

text \<open>
  The claims speak of an address-order walk of the heap and of the blocks reachable from
  the free-list root. Neither walk is in \<open>malloc.c\<close>; they are written here over its
  macros. The address-order walk starts at the prologue block and follows \<open>NEXT_BLKP\<close>
  until a header of size 0 (the epilogue); it yields each block's pointer, size and
  allocation bit. The list walk follows next-links from the root to \<open>NULL\<close>. Both take a
  bound on the number of steps and return \<open>None\<close> when it is exceeded or a read leaves
  the heap. The memory does not change during a walk, so a walk that ends visits no
  address twice; block pointers of one walk are 8 bytes apart at least and list nodes 4,
  so the bounds below (one step per 8, respectively 4, bytes of the heap) cut off only
  walks that never end.
\<close>

fun walk_blocks :: "nat \<Rightarrow> heap \<Rightarrow> addr \<Rightarrow> (addr \<times> word32 \<times> word32) list option" where
  "walk_blocks n s bp =
     (if n = 0 then None
      else do {
        sz \<leftarrow> GET_SIZE s (HDRP bp);
        alloc \<leftarrow> GET_ALLOC s (HDRP bp);
        if sz = 0 then Some []
        else do {
          rest \<leftarrow> walk_blocks (n - 1) s (bp + sz);
          Some ((bp, sz, alloc) # rest)
        }
      })"

fun walk_list :: "nat \<Rightarrow> heap \<Rightarrow> addr \<Rightarrow> addr list option" where
  "walk_list n s bp =
     (if bp = 0 then Some []
      else if n = 0 then None
      else do {
        nxt \<leftarrow> READ s (NEXTP bp);
        rest \<leftarrow> walk_list (n - 1) s nxt;
        Some (bp # rest)
      })"

definition heap_blocks :: "heap \<Rightarrow> (addr \<times> word32 \<times> word32) list option" where
  "heap_blocks s =
     walk_blocks (unat (mem_brk s - mem_heap s) div 8 + 1) s (mem_heap s + 2 * WSIZE)"

definition free_list :: "heap \<Rightarrow> addr list option" where
  "free_list s = walk_list (unat (mem_brk s - mem_heap s) div 4 + 1) s (FREE_LIST_ROOT s)"

definition free_blocks :: "(addr \<times> word32 \<times> word32) list \<Rightarrow> addr list" where
  "free_blocks bs = map fst (filter (\<lambda>(bp, sz, alloc). alloc = 0) bs)"

fun adjacent_free :: "(addr \<times> word32 \<times> word32) list \<Rightarrow> bool" where
  "adjacent_free ((b1, s1, a1) # (b2, s2, a2) # rest) =
     ((a1 = 0 \<and> a2 = 0) \<or> adjacent_free ((b2, s2, a2) # rest))"
| "adjacent_free _ = False"

section \<open>Predicates on heaps\<close>

text \<open>
  \<open>same_bounds\<close>: two states have the same region. \<open>block_in_heap\<close>: the \<open>sz\<close> bytes that
  start at the header of \<open>bp\<close> lie in the region, and \<open>bp\<close> is word aligned.
  \<open>alloc_block\<close>: header and footer of \<open>bp\<close> both hold \<open>PACK(sz, 1)\<close>.
  \<open>list_clear k s r lo n\<close>: the first \<open>k\<close> nodes of the list that starts at \<open>r\<close> have both
  link words in the heap and outside the \<open>n\<close> bytes that start at \<open>lo\<close> (the difference
  \<open>r - lo\<close> wraps around for an address below \<open>lo\<close>, which is then at least \<open>n\<close> away as
  well).
\<close>

definition same_bounds :: "heap \<Rightarrow> heap \<Rightarrow> bool" where
  "same_bounds s s' \<longleftrightarrow>
     mem_heap s' = mem_heap s \<and> mem_brk s' = mem_brk s \<and> mem_max_addr s' = mem_max_addr s"

definition block_in_heap :: "heap \<Rightarrow> addr \<Rightarrow> word32 \<Rightarrow> bool" where
  "block_in_heap s bp sz \<longleftrightarrow>
     bp AND 3 = 0 \<and> unat (mem_heap s) + 4 \<le> unat bp \<and> unat bp + unat sz \<le> unat (mem_brk s) + 4"

definition alloc_block :: "heap \<Rightarrow> addr \<Rightarrow> word32 \<Rightarrow> bool" where
  "alloc_block s bp sz \<longleftrightarrow>
     READ s (HDRP bp) = Some (PACK sz 1) \<and> READ s (bp + sz - DSIZE) = Some (PACK sz 1)"

fun list_clear :: "nat \<Rightarrow> heap \<Rightarrow> addr \<Rightarrow> addr \<Rightarrow> word32 \<Rightarrow> bool" where
  "list_clear 0 s r lo n = True"
| "list_clear (Suc k) s r lo n =
     (r = 0 \<or> (in_heap s r \<and> in_heap s (PREVP r) \<and> n \<le> r - lo \<and> n \<le> PREVP r - lo
        \<and> list_clear k s (mem s r) lo n))"

section \<open>Concrete heaps\<close>

text \<open>
  \<open>heap0\<close> is the state of a program that has not called the allocator yet: the region
  is empty and starts at the 8-byte aligned address 4096, it can grow to 1 MiB, the
  memory is zero-filled and \<open>FREE_LIST_ROOT\<close> holds its initial value \<open>NULL\<close>.
  \<open>heap1\<close> is that state after \<open>mm_init\<close>, and \<open>heap_full\<close> is \<open>heap1\<close> with a growth
  primitive that has no space left.
\<close>

definition heap0 :: heap where
  "heap0 = \<lparr>mem = (\<lambda>_. 0), mem_heap = 4096, mem_brk = 4096, mem_max_addr = 1048576,
     FREE_LIST_ROOT = 0\<rparr>"

definition heap1 :: heap where
  "heap1 = \<lparr>mem = (\<lambda>_. 0)(4096 := 0, 4100 := 9, 4104 := 9, 4108 := 1), mem_heap = 4096,
     mem_brk = 4112, mem_max_addr = 1048576, FREE_LIST_ROOT = 0\<rparr>"

definition heap_full :: heap where
  "heap_full = heap1\<lparr>mem_max_addr := 4112\<rparr>"

text \<open>
  \<open>heap2\<close> is \<open>heap1\<close> after \<open>mm_malloc(1)\<close>: the allocated block 4112 of 16 bytes and
  the free block 4128 of 4080 bytes, which is the free list. \<open>heap3\<close> is \<open>heap1\<close> after
  three calls of \<open>mm_malloc(1)\<close>: the allocated blocks 4112, 4128 and 4144 of 16 bytes each
  and the free block 4160, which is the free list.
\<close>

definition heap2 :: heap where
  "heap2 = \<lparr>mem = (\<lambda>_. 0)(4096 := 0, 4100 := 9, 4104 := 9, 8204 := 1, 4116 := 0, 4112 := 0,
       4108 := 17, 4120 := 17, 4124 := 4080, 8200 := 4080, 4132 := 0, 4128 := 0),
     mem_heap = 4096, mem_brk = 8208, mem_max_addr = 1048576, FREE_LIST_ROOT = 4128\<rparr>"

definition heap3 :: heap where
  "heap3 = \<lparr>mem = (\<lambda>_. 0)(4096 := 0, 4100 := 9, 4104 := 9, 8204 := 1, 4116 := 0, 4112 := 0,
       4108 := 17, 4120 := 17, 4132 := 0, 4128 := 0, 4124 := 17, 4136 := 17, 4148 := 0,
       4144 := 0, 4140 := 17, 4152 := 17, 4156 := 4048, 8200 := 4048, 4164 := 0, 4160 := 0),
     mem_heap = 4096, mem_brk = 8208, mem_max_addr = 1048576, FREE_LIST_ROOT = 4160\<rparr>"


section \<open>Evaluation\<close>

declare walk_blocks.simps [simp del] walk_list.simps [simp del]

lemmas macro_defs = WSIZE_def DSIZE_def DEFAULT_CHUNKSIZE_def MAX_of_def PACK_def
  NEXTP_def PREVP_def HDRP_def

lemmas mem_defs = in_heap_def READ_def WRITE_def GET_SIZE_def GET_ALLOC_def FTRP_def
  NEXT_BLKP_def PREV_BLKP_def mem_sbrk_def

lemmas op_defs = add_free_def fb_patching_def handle_free_def mm_init_def extend_heap_def
  find_fit_def handle_malloc_def adjust_size_def mm_malloc_def mm_free_def mm_realloc_def

lemma find_fit_loop_null: "find_fit_loop s asize 0 = Some 0"
  by (subst find_fit_loop.simps) simp

lemma find_fit_loop_hit:
  "p \<noteq> 0 \<Longrightarrow> GET_SIZE s (HDRP p) = Some cf \<Longrightarrow> \<not> cf < asize \<Longrightarrow>
   find_fit_loop s asize p = Some p"
  by (subst find_fit_loop.simps) simp

lemma find_fit_loop_step:
  "p \<noteq> 0 \<Longrightarrow> GET_SIZE s (HDRP p) = Some cf \<Longrightarrow> cf < asize \<Longrightarrow>
   READ s (NEXTP p) = Some nxt \<Longrightarrow>
   find_fit_loop s asize p = find_fit_loop s asize nxt"
  by (subst find_fit_loop.simps) simp

lemmas run_defs = macro_defs mem_defs op_defs find_fit_loop_null find_fit_loop_hit
  find_fit_loop_step heap_blocks_def free_list_def free_blocks_def walk_blocks.simps
  walk_list.simps

lemma mm_init_heap0: "mm_init heap0 = Some (0, heap1)"
  by (simp add: heap0_def heap1_def run_defs)

lemma mm_malloc_heap1: "mm_malloc 1 heap1 = Some (4112, heap2)"
  by (simp add: heap1_def heap2_def run_defs)

lemma mm_malloc_heap3:
  "do { (p1, s2) \<leftarrow> mm_malloc 1 heap1; (p2, s3) \<leftarrow> mm_malloc 1 s2;
        (p3, s4) \<leftarrow> mm_malloc 1 s3; Some (p1, p2, p3, s4) }
   = Some (4112, 4128, 4144, heap3)"
  by (simp add: heap1_def heap3_def run_defs)

section \<open>Word arithmetic\<close>

lemma and3_dvd4: "(p :: word32) AND 3 = 0 \<longleftrightarrow> 4 dvd p"
  using take_bit_eq_0_iff [of 2 p] by (simp add: take_bit_eq_mask mask_eq_exp_minus_1)

lemma and7_dvd8: "(p :: word32) AND 7 = 0 \<longleftrightarrow> 8 dvd p"
  using take_bit_eq_0_iff [of 3 p] by (simp add: take_bit_eq_mask mask_eq_exp_minus_1)

lemma size_of_PACK:
  fixes sz a :: word32
  assumes "sz AND 7 = 0" and "a = 0 \<or> a = 1"
  shows "(sz OR a) AND NOT 7 = sz"
proof -
  have a7: "a AND NOT 7 = 0" using assms(2) by auto
  have "sz AND NOT 7 = sz"
  proof -
    have "sz = (sz AND 7) OR (sz AND NOT 7)"
      by (metis bit.conj_disj_distrib bit.disj_cancel_right and.right_neutral)
    then show ?thesis using assms(1) by simp
  qed
  moreover have "(sz OR a) AND NOT 7 = (sz AND NOT 7) OR (a AND NOT 7)"
    by (simp add: bit.conj_disj_distrib2)
  ultimately show ?thesis using a7 by simp
qed

lemma alloc_of_PACK:
  fixes sz a :: word32
  assumes "sz AND 7 = 0" and "a = 0 \<or> a = 1"
  shows "(sz OR a) AND 1 = a"
proof -
  have "sz AND 1 = (sz AND 7) AND 1" by (simp add: and.assoc)
  then have "sz AND 1 = 0" using assms(1) by simp
  moreover have "(sz OR a) AND 1 = (sz AND 1) OR (a AND 1)"
    by (simp add: bit.conj_disj_distrib2)
  ultimately show ?thesis using assms(2) by auto
qed

lemma in_heap_offset:
  assumes "p AND 3 = 0" and "k AND 3 = 0" and "mem_heap s \<le> p"
    and "unat p + unat k + 4 \<le> unat (mem_brk s)"
  shows "in_heap s (p + k)"
proof -
  have lt: "unat p + unat k < 2 ^ 32"
    using assms(4) unsigned_less [of "mem_brk s", where 'a = nat] by simp
  then have u: "unat (p + k) = unat p + unat k"
    by (simp add: unat_add_lem [THEN iffD1])
  have "4 dvd p + k" using assms(1,2) by (simp add: and3_dvd4)
  then have "(p + k) AND 3 = 0" by (simp add: and3_dvd4)
  moreover have "mem_heap s \<le> p + k"
    using assms(3) u by (simp add: word_le_nat_alt)
  ultimately show ?thesis using u assms(4) by (simp add: in_heap_def)
qed

lemma in_heap_mem_update [simp]: "in_heap (s\<lparr>mem := m\<rparr>) p = in_heap s p"
  by (simp add: in_heap_def)

lemma in_heap_root_update [simp]: "in_heap (s\<lparr>FREE_LIST_ROOT := r\<rparr>) p = in_heap s p"
  by (simp add: in_heap_def)

section \<open>Tag words (C10)\<close>

text \<open>
  C10. For every size that is a multiple of 8 and every allocation bit \<open>a\<close> in \<open>{0, 1}\<close>,
  decoding the packed tag recovers both fields: after \<open>WRITE(p, PACK(size, a))\<close> at a
  word of the heap, \<open>GET_SIZE(p)\<close> is \<open>size\<close> and \<open>GET_ALLOC(p)\<close> is \<open>a\<close>.
\<close>

theorem PACK_decode:
  assumes "sz AND 7 = 0" and "a = 0 \<or> a = 1" and "in_heap s p"
  shows "do { s' \<leftarrow> WRITE p (PACK sz a) s; GET_SIZE s' p } = Some sz
       \<and> do { s' \<leftarrow> WRITE p (PACK sz a) s; GET_ALLOC s' p } = Some a"
  using assms(3) size_of_PACK [OF assms(1,2)] alloc_of_PACK [OF assms(1,2)]
  by (simp add: WRITE_def READ_def GET_SIZE_def GET_ALLOC_def PACK_def)

theorem PACK_decode_witness:
  "(4080 :: word32) AND 7 = 0 \<and> in_heap heap1 4108
   \<and> do { s' \<leftarrow> WRITE 4108 (PACK 4080 1) heap1; GET_SIZE s' 4108 } = Some 4080
   \<and> do { s' \<leftarrow> WRITE 4108 (PACK 4080 1) heap1; GET_ALLOC s' 4108 } = Some 1"
proof -
  have h1: "(4080 :: word32) AND 7 = 0" by simp
  have h2: "(1 :: word32) = 0 \<or> (1 :: word32) = 1" by simp
  have h3: "in_heap heap1 4108" by (simp add: in_heap_def heap1_def)
  show ?thesis using h1 h3 PACK_decode [OF h1 h2 h3] by simp
qed

section \<open>Bootstrap (C8)\<close>

lemma mm_init_result:
  assumes al: "mem_brk s AND 3 = 0" and lo: "mem_heap s \<le> mem_brk s"
    and room: "unat (mem_brk s) + 16 \<le> unat (mem_max_addr s)"
  shows "\<exists>s'. mm_init s = Some (0, s')
           \<and> READ s' (mem_brk s) = Some 0
           \<and> READ s' (mem_brk s + 4) = Some (PACK 8 1)
           \<and> READ s' (mem_brk s + 8) = Some (PACK 8 1)
           \<and> READ s' (mem_brk s + 12) = Some (PACK 0 1)"
proof -
  define p where "p = mem_brk s"
  define s0 where "s0 = s\<lparr>mem_brk := p + 16\<rparr>"
  have lt: "unat p + 16 < 2 ^ 32"
    using room unsigned_less [of "mem_max_addr s", where 'a = nat] by (simp add: p_def)
  then have u16: "unat (p + 16) = unat p + 16"
    using unat_add_lem [of p 16] by simp
  have sb: "mem_sbrk 16 s = (p, s0)"
    using room by (simp add: mem_sbrk_def p_def s0_def)
  have pne: "p \<noteq> - 1"
  proof
    assume "p = - 1"
    then have "unat p = 2 ^ 32 - 1"
      by (simp add: unsigned_minus_1_eq_mask mask_eq_exp_minus_1)
    with lt show False by simp
  qed
  have h0: "mem_heap s0 = mem_heap s" and b0: "mem_brk s0 = p + 16"
    by (simp_all add: s0_def)
  have ih: "in_heap s0 (p + k)" if "k AND 3 = 0" and "unat k \<le> 12" for k
    using that al lo u16 by (intro in_heap_offset) (simp_all add: h0 b0 p_def)
  have i0: "in_heap s0 p" using ih [of 0] by simp
  have i4: "in_heap s0 (p + 4)" using ih [of 4] by simp
  have i8: "in_heap s0 (p + 8)" using ih [of 8] by simp
  have i12: "in_heap s0 (p + 12)" using ih [of 12] by simp
  define s' where
    "s' = s0\<lparr>mem := (mem s0)(p := 0, p + 4 := PACK 8 1, p + 8 := PACK 8 1, p + 12 := PACK 0 1)\<rparr>"
  have run: "mm_init s = Some (0, s')"
    using i0 i4 i8 i12 pne
    by (simp add: mm_init_def sb WRITE_def WSIZE_def DSIZE_def s'_def)
  have rd: "READ s' p = Some 0" "READ s' (p + 4) = Some (PACK 8 1)"
    "READ s' (p + 8) = Some (PACK 8 1)" "READ s' (p + 12) = Some (PACK 0 1)"
    using i0 i4 i8 i12 by (simp_all add: READ_def s'_def)
  show ?thesis
    unfolding p_def [symmetric] using run rd by simp
qed

text \<open>
  C8, as stated, at \<open>heap0\<close>: \<open>mm_init\<close> returns 0, and the prologue header and footer it
  wrote (the second and third word of the region) both hold 9, which is \<open>PACK(8, 1)\<close>;
  \<open>PACK(16, 1)\<close> is 17.
\<close>

theorem mm_init_prologue_is_not_16:
  "do { (r, s') \<leftarrow> mm_init heap0;
        hdr \<leftarrow> READ s' (mem_brk heap0 + 1 * WSIZE);
        ftr \<leftarrow> READ s' (mem_brk heap0 + 2 * WSIZE);
        Some (r, hdr, ftr) } = Some (0, 9, 9)
   \<and> PACK 16 1 = 17 \<and> PACK DSIZE 1 = 9"
  by (simp add: mm_init_heap0) (simp add: heap0_def heap1_def run_defs)

text \<open>
  C8, amended. When the growth primitive supplies the initial 4-word region (the region
  so far is word aligned and 16 more bytes fit below the limit), \<open>mm_init\<close> returns
  success and the four words it obtained hold: one word of alignment padding (0), a
  prologue header and a prologue footer both equal to \<open>PACK(8, 1)\<close>, and an epilogue
  header equal to \<open>PACK(0, 1)\<close>.
\<close>

theorem mm_init_sentinels:
  assumes "mem_brk s AND 3 = 0" and "mem_heap s \<le> mem_brk s"
    and "unat (mem_brk s) + 16 \<le> unat (mem_max_addr s)"
  shows "do { (r, s') \<leftarrow> mm_init s;
              pad \<leftarrow> READ s' (mem_brk s);
              hdr \<leftarrow> READ s' (mem_brk s + 1 * WSIZE);
              ftr \<leftarrow> READ s' (mem_brk s + 2 * WSIZE);
              epi \<leftarrow> READ s' (mem_brk s + 3 * WSIZE);
              Some (r, pad, hdr, ftr, epi) }
         = Some (0, 0, PACK DSIZE 1, PACK DSIZE 1, PACK 0 1)"
  using mm_init_result [OF assms] by (auto simp: WSIZE_def DSIZE_def)

theorem mm_init_sentinels_witness:
  "mem_brk heap0 AND 3 = 0 \<and> mem_heap heap0 \<le> mem_brk heap0
   \<and> unat (mem_brk heap0) + 16 \<le> unat (mem_max_addr heap0)
   \<and> do { (r, s') \<leftarrow> mm_init heap0;
          pad \<leftarrow> READ s' (mem_brk heap0);
          hdr \<leftarrow> READ s' (mem_brk heap0 + 1 * WSIZE);
          ftr \<leftarrow> READ s' (mem_brk heap0 + 2 * WSIZE);
          epi \<leftarrow> READ s' (mem_brk heap0 + 3 * WSIZE);
          Some (r, pad, hdr, ftr, epi) }
       = Some (0, 0, 9, 9, 1)"
proof -
  have h1: "mem_brk heap0 AND 3 = 0" by (simp add: heap0_def)
  have h2: "mem_heap heap0 \<le> mem_brk heap0" by (simp add: heap0_def)
  have h3: "unat (mem_brk heap0) + 16 \<le> unat (mem_max_addr heap0)" by (simp add: heap0_def)
  show ?thesis
    using h1 h2 h3 mm_init_sentinels [OF h1 h2 h3] by (simp add: PACK_def DSIZE_def)
qed

section \<open>The free list (C1, C2)\<close>

text \<open>
  C1 says that \<open>add_free\<close> on a non-empty list makes the inserted block's next-link point
  at the old head and the old head's prev-link point at the inserted block; the comment
  in \<open>add_free\<close> says the same (``we need to make bp's next point to the old_root'').
  The code reads the old head's next-link instead and links the inserted block to that.
  Here the heap is initialised and two 1-byte blocks are allocated, which leaves the free
  remainder 4144 as the only list member; the first block, 4112, is tagged free as
  \<open>mm_free\<close> does, and \<open>add_free\<close> inserts it (the call that \<open>handle_free\<close> makes for
  it). Afterwards the root is 4112, but its next-link is \<open>NULL\<close>, not the old head 4144,
  and the old head's prev-link is \<open>NULL\<close>, not 4112.
\<close>

theorem add_free_drops_old_head:
  "do { (r, s1) \<leftarrow> mm_init heap0;
        (p1, s2) \<leftarrow> mm_malloc 1 s1;
        (p2, s3) \<leftarrow> mm_malloc 1 s2;
        sz \<leftarrow> GET_SIZE s3 (HDRP p1);
        t1 \<leftarrow> WRITE (HDRP p1) (PACK sz 0) s3;
        ftr \<leftarrow> FTRP t1 p1;
        t2 \<leftarrow> WRITE ftr (PACK sz 0) t1;
        s4 \<leftarrow> add_free p1 t2;
        bp_next \<leftarrow> READ s4 (NEXTP p1);
        bp_prev \<leftarrow> READ s4 (PREVP p1);
        old_head_prev \<leftarrow> READ s4 (PREVP (FREE_LIST_ROOT t2));
        Some (FREE_LIST_ROOT t2, p1, bp_prev, bp_next, old_head_prev, FREE_LIST_ROOT s4) }
   = Some (4144, 4112, 0, 0, 0, 4112)"
  by (simp add: mm_init_heap0) (simp add: heap1_def run_defs)

text \<open>
  C2 says that after every completed public operation the blocks reachable from the
  free-list root are exactly the blocks whose allocation bit is 0. After \<open>mm_init\<close>, two
  allocations of 1 byte and \<open>mm_free\<close> of the first, the address-order walk finds the
  free blocks 4112 and 4144, and the free list holds 4112 only: \<open>add_free\<close> replaced the
  old head 4144 instead of linking to it (the defect of C1).
\<close>

theorem free_list_misses_free_block:
  "do { (r, s1) \<leftarrow> mm_init heap0;
        (p1, s2) \<leftarrow> mm_malloc 1 s1;
        (p2, s3) \<leftarrow> mm_malloc 1 s2;
        s4 \<leftarrow> mm_free p1 s3;
        members \<leftarrow> free_list s4;
        blocks \<leftarrow> heap_blocks s4;
        Some (p1, p2, members, free_blocks blocks, blocks) }
   = Some (4112, 4128, [4112], [4112, 4144],
       [(4104, 8, 1), (4112, 16, 0), (4128, 16, 1), (4144, 4064, 0)])"
  by (simp add: mm_init_heap0) (simp add: heap1_def run_defs)

section \<open>Size normalisation (C3, C4)\<close>

text \<open>
  C4 says that whenever \<open>mm_malloc(size)\<close> succeeds for \<open>size > 0\<close>, the payload of the
  returned block holds at least \<open>size\<close> bytes. The normalisation
  \<open>(size + DSIZE + (DSIZE - 1)) / DSIZE * DSIZE\<close> wraps around for the 15 largest
  sizes. On the initialised heap, \<open>mm_malloc(4294967289)\<close> computes the adjusted size 8,
  grows the heap by one chunk and returns the non-null pointer 4112 to a block of 8
  bytes: header and footer, and no payload at all.
\<close>

theorem mm_malloc_wrapped_size:
  "do { (r, s1) \<leftarrow> mm_init heap0;
        (p, s2) \<leftarrow> mm_malloc 4294967289 s1;
        block_size \<leftarrow> GET_SIZE s2 (HDRP p);
        Some (adjust_size 4294967289, p, block_size, block_size - DSIZE) }
   = Some (8, 4112, 8, 0)"
  by (simp add: mm_init_heap0) (simp add: heap1_def run_defs)

text \<open>
  C3 says that after any sequence of allocate and free calls on an initialised heap the
  address-order walk never finds two consecutive free blocks. \<open>mm_malloc(4294967288)\<close>
  computes the adjusted size 0 (the same wrap-around as in C4): it returns the list head
  4112 while leaving it free, and writes \<open>PACK(0, 1)\<close> over the footer in front of it.
  Freeing the returned pointer then takes that footer for the previous block's, merges
  the block with itself to size 32 over the allocated block 4128, and the walk finds the
  free block 4112 of size 32 directly followed by the free block 4144.
\<close>

theorem adjacent_free_after_wrapped_malloc:
  "do { (r, s1) \<leftarrow> mm_init heap0;
        (p1, s2) \<leftarrow> mm_malloc 1 s1;
        (p2, s3) \<leftarrow> mm_malloc 1 s2;
        s4 \<leftarrow> mm_free p1 s3;
        (p3, s5) \<leftarrow> mm_malloc 4294967288 s4;
        s6 \<leftarrow> mm_free p3 s5;
        blocks \<leftarrow> heap_blocks s6;
        Some (p1, p2, p3, blocks, adjacent_free blocks) }
   = Some (4112, 4128, 4112, [(4104, 8, 1), (4112, 32, 0), (4144, 4064, 0)], True)"
  by (simp add: mm_init_heap0) (simp add: heap1_def run_defs)

section \<open>Resizing (C9)\<close>

text \<open>
  C9 says that \<open>mm_realloc\<close> with a null pointer behaves exactly as \<open>mm_malloc\<close>, and the
  comment above \<open>mm_realloc\<close> says it is implemented in terms of \<open>mm_malloc\<close> and
  \<open>mm_free\<close>; its body is empty. On the initialised heap \<open>mm_malloc(1)\<close> returns 4112 and
  grows the heap to 8208, while \<open>mm_realloc(NULL, 1)\<close> returns no pointer and leaves the
  heap as it was, ending at 4112.
\<close>

theorem mm_realloc_null_is_not_malloc:
  "do { (r, s1) \<leftarrow> mm_init heap0;
        (p, s2) \<leftarrow> mm_malloc 1 s1;
        Some (p, mem_brk s2, fst (mm_realloc 0 1 s1), snd (mm_realloc 0 1 s1) = s1,
              mem_brk (snd (mm_realloc 0 1 s1))) }
   = Some (4112, 8208, None, True, 4112)"
  by (simp add: mm_init_heap0) (simp add: heap1_def run_defs)

section \<open>Frames\<close>

lemma same_bounds_refl [simp]: "same_bounds s s"
  by (simp add: same_bounds_def)

lemma same_bounds_trans: "same_bounds s t \<Longrightarrow> same_bounds t u \<Longrightarrow> same_bounds s u"
  by (simp add: same_bounds_def)

lemma same_bounds_root [simp]: "same_bounds s (t\<lparr>FREE_LIST_ROOT := r\<rparr>) = same_bounds s t"
  by (simp add: same_bounds_def)

lemma WRITE_bounds: "WRITE p v s = Some s' \<Longrightarrow> same_bounds s s'"
  by (auto simp: WRITE_def same_bounds_def split: if_splits)

lemma add_free_bounds: "add_free bp s = Some s' \<Longrightarrow> same_bounds s s'"
  unfolding add_free_def
  by (auto simp: bind_eq_Some_conv split: if_splits
      dest!: WRITE_bounds simp: same_bounds_def)

lemma fb_patching_bounds: "fb_patching bp s = Some s' \<Longrightarrow> same_bounds s s'"
  unfolding fb_patching_def
  by (auto simp: bind_eq_Some_conv split: if_splits
      dest!: WRITE_bounds simp: same_bounds_def)

lemma handle_free_bounds: "handle_free bp s = Some (q, s') \<Longrightarrow> same_bounds s s'"
  unfolding handle_free_def
  by (auto simp: bind_eq_Some_conv split: if_splits
      dest!: WRITE_bounds add_free_bounds fb_patching_bounds simp: same_bounds_def)

lemma handle_malloc_bounds: "handle_malloc bp asize s = Some s' \<Longrightarrow> same_bounds s s'"
  unfolding handle_malloc_def
  by (auto simp: bind_eq_Some_conv split: if_splits
      dest!: WRITE_bounds add_free_bounds fb_patching_bounds simp: same_bounds_def)

lemma same_bounds_in_heap: "same_bounds s s' \<Longrightarrow> in_heap s' p = in_heap s p"
  by (simp add: same_bounds_def in_heap_def)

lemma and7_dvd8_nat: "(x :: word32) AND 7 = 0 \<longleftrightarrow> 8 dvd unat x"
proof -
  have "x AND 7 = 0 \<longleftrightarrow> take_bit 3 x = 0"
    by (simp add: take_bit_eq_mask mask_eq_exp_minus_1)
  also have "\<dots> \<longleftrightarrow> unat (take_bit 3 x) = 0"
    by (simp add: unat_eq_0)
  also have "\<dots> \<longleftrightarrow> take_bit 3 (unat x) = 0"
    by (simp add: unsigned_take_bit_eq)
  also have "\<dots> \<longleftrightarrow> 8 dvd unat x"
    using take_bit_eq_0_iff [of 3 "unat x"] by simp
  finally show ?thesis .
qed

lemma GET_SIZE_aligned: "GET_SIZE s p = Some cf \<Longrightarrow> cf AND 7 = 0"
  by (auto simp: GET_SIZE_def bind_eq_Some_conv and.assoc)

lemma READ_mem_update [simp]:
  "READ (s\<lparr>mem := m\<rparr>) p = (if in_heap s p then Some (m p) else None)"
  by (simp add: READ_def)

lemma WRITE_eq: "in_heap s p \<Longrightarrow> WRITE p v s = Some (s\<lparr>mem := (mem s)(p := v)\<rparr>)"
  by (simp add: WRITE_def)

lemma GET_SIZE_PACK:
  assumes "in_heap s p" and "mem s p = PACK sz a" and "sz AND 7 = 0" and "a = 0 \<or> a = 1"
  shows "GET_SIZE s p = Some sz"
  using assms size_of_PACK [of sz a] by (simp add: GET_SIZE_def READ_def PACK_def)

lemma PACK_fields:
  assumes "sz AND 7 = 0"
  shows "PACK sz 1 AND NOT 7 = sz" and "PACK sz 0 AND NOT 7 = sz"
    and "PACK sz 1 AND 1 = 1" and "PACK sz 0 AND 1 = 0"
  using size_of_PACK [OF assms, of 1] size_of_PACK [OF assms, of 0]
    alloc_of_PACK [OF assms, of 1] alloc_of_PACK [OF assms, of 0]
  by (simp_all add: PACK_def)

section \<open>Growth (C7)\<close>

lemma adjust_size_aligned: "adjust_size sz AND 7 = 0"
proof -
  have "8 dvd ((sz + 8 + (8 - 1)) div 8) * (8 :: word32)" by (rule dvd_triv_right)
  then have "((sz + 8 + (8 - 1)) div 8) * (8 :: word32) AND 7 = 0"
    by (simp only: and7_dvd8)
  moreover have "(2 * 8 :: word32) AND 7 = 0" by simp
  ultimately show ?thesis
    by (simp only: adjust_size_def DSIZE_def split: if_split) simp
qed

lemma request_aligned: "MAX_of (adjust_size sz) DEFAULT_CHUNKSIZE AND 7 = 0"
  using adjust_size_aligned [of sz] by (simp add: MAX_of_def DEFAULT_CHUNKSIZE_def)

lemma request_ge_chunk: "4096 \<le> unat (MAX_of (adjust_size sz) DEFAULT_CHUNKSIZE)"
  by (simp add: MAX_of_def DEFAULT_CHUNKSIZE_def word_less_nat_alt)

lemma words_to_bytes:
  fixes x :: word32
  assumes "x AND 7 = 0"
  shows "(if (x div WSIZE) mod 2 \<noteq> 0 then (x div WSIZE + 1) * WSIZE else (x div WSIZE) * WSIZE) = x"
proof -
  from assms obtain n where n: "unat x = 8 * n" by (auto simp: and7_dvd8_nat)
  have d: "unat (x div 4) = 2 * n" by (simp add: unat_div n)
  have "unat ((x div 4) mod 2) = 0" by (simp add: unat_mod d)
  then have m: "(x div 4) mod 2 = 0" by (simp add: unat_eq_0)
  have "unat (x div 4) * unat (4 :: word32) < 2 ^ 32"
    using unsigned_less [of x, where 'a = nat] by (simp add: d n)
  then have "unat ((x div 4) * 4) = unat (x div 4) * unat (4 :: word32)"
    using unat_mult_lem [of "x div 4" 4] by simp
  then have "unat ((x div 4) * 4) = unat x" by (simp add: d n)
  then have "(x div 4) * 4 = x" by (simp add: word_unat_eq_iff)
  with m show ?thesis by (simp add: WSIZE_def)
qed

lemma extend_heap_unfold:
  assumes "x AND 7 = 0"
  shows "extend_heap (x div WSIZE) s =
    (case mem_sbrk x s of (bp, s0) \<Rightarrow>
        if bp = - 1 then Some (0, s0)
        else do {
          s1 \<leftarrow> WRITE (HDRP bp) (PACK x 0) s0;
          ftr \<leftarrow> FTRP s1 bp;
          s2 \<leftarrow> WRITE ftr (PACK x 0) s1;
          next_block \<leftarrow> NEXT_BLKP s2 bp;
          s3 \<leftarrow> WRITE (HDRP next_block) (PACK 0 1) s2;
          handle_free bp s3
        })"
  unfolding extend_heap_def Let_def words_to_bytes [OF assms] ..

lemma extend_heap_grows:
  assumes "x AND 7 = 0" and "fst (mem_sbrk x s) \<noteq> - 1" and "extend_heap (x div WSIZE) s = Some (p, s')"
  shows "mem_brk s' = mem_brk s + x"
proof -
  obtain bp s0 where sb: "mem_sbrk x s = (bp, s0)" by (cases "mem_sbrk x s")
  with assms(2) have ne: "bp \<noteq> - 1" by simp
  have b0: "mem_brk s0 = mem_brk s + x"
    using sb ne by (auto simp: mem_sbrk_def split: if_splits)
  from assms(3) have "same_bounds s0 s'"
    unfolding extend_heap_unfold [OF assms(1)] sb using ne
    by (auto simp: bind_eq_Some_conv
        dest!: WRITE_bounds handle_free_bounds simp: same_bounds_def)
  then show ?thesis using b0 by (simp add: same_bounds_def)
qed

lemma mem_sbrk_fails:
  assumes "fst (mem_sbrk x s) = - 1" and "0 < unat x"
  shows "mem_sbrk x s = (- 1, s)"
proof (cases "unat (mem_brk s) + unat x \<le> unat (mem_max_addr s)")
  case False
  then show ?thesis by (simp add: mem_sbrk_def)
next
  case True
  with assms(1) have "mem_brk s = - 1" by (simp add: mem_sbrk_def)
  then have "unat (mem_brk s) = 2 ^ 32 - 1"
    by (simp add: unsigned_minus_1_eq_mask mask_eq_exp_minus_1)
  with True assms(2) unsigned_less [of "mem_max_addr s", where 'a = nat]
  show ?thesis by simp
qed

text \<open>
  C7. For every size for which no free block in the list fits (\<open>find_fit\<close> returns
  \<open>NULL\<close>; the search is reached for a size other than 0), \<open>mm_malloc\<close> requests
  \<open>MAX(asize, DEFAULT_CHUNKSIZE)\<close> bytes from the growth primitive: if the primitive
  fails for that request, \<open>mm_malloc\<close> returns \<open>NULL\<close> and the state is exactly as it was
  before the call; if it succeeds, a call that returns has grown the heap by exactly that
  many bytes.
\<close>

theorem mm_malloc_requests_growth:
  assumes "sz \<noteq> 0" and "find_fit (adjust_size sz) s = Some 0"
  shows "(fst (mem_sbrk (MAX_of (adjust_size sz) DEFAULT_CHUNKSIZE) s) = - 1 \<longrightarrow>
            mm_malloc sz s = Some (0, s))
       \<and> (fst (mem_sbrk (MAX_of (adjust_size sz) DEFAULT_CHUNKSIZE) s) \<noteq> - 1 \<longrightarrow>
            (\<forall>p s'. mm_malloc sz s = Some (p, s') \<longrightarrow>
               mem_brk s' = mem_brk s + MAX_of (adjust_size sz) DEFAULT_CHUNKSIZE))"
proof -
  define x where "x = MAX_of (adjust_size sz) DEFAULT_CHUNKSIZE"
  have al: "x AND 7 = 0" unfolding x_def by (rule request_aligned)
  have pos: "0 < unat x" using request_ge_chunk [of sz] by (simp add: x_def)
  have mm: "mm_malloc sz s = do {
      (bp, s1) \<leftarrow> extend_heap (x div WSIZE) s;
      if bp = 0 then Some (0, s1)
      else do { s2 \<leftarrow> handle_malloc bp (adjust_size sz) s1; Some (bp, s2) } }"
    using assms by (simp add: mm_malloc_def x_def Let_def)
  have fail: "mm_malloc sz s = Some (0, s)" if "fst (mem_sbrk x s) = - 1"
    using mem_sbrk_fails [OF that pos]
    by (simp add: mm extend_heap_unfold [OF al])
  have grow: "mem_brk s' = mem_brk s + x"
    if ok: "fst (mem_sbrk x s) \<noteq> - 1" and res: "mm_malloc sz s = Some (p, s')" for p s'
  proof -
    from res obtain bp s1 where ex: "extend_heap (x div WSIZE) s = Some (bp, s1)"
      and rest: "(if bp = 0 then Some (0, s1)
         else do { s2 \<leftarrow> handle_malloc bp (adjust_size sz) s1; Some (bp, s2) }) = Some (p, s')"
      unfolding mm by (auto simp: bind_eq_Some_conv)
    have "mem_brk s1 = mem_brk s + x" by (rule extend_heap_grows [OF al ok ex])
    moreover have "same_bounds s1 s'"
      using rest by (auto simp: bind_eq_Some_conv same_bounds_def split: if_splits dest!: handle_malloc_bounds)
    ultimately show ?thesis by (simp add: same_bounds_def)
  qed
  show ?thesis unfolding x_def [symmetric] using fail grow by blast
qed

theorem mm_malloc_requests_growth_witness:
  "(1 :: word32) \<noteq> 0
   \<and> find_fit (adjust_size 1) heap_full = Some 0
   \<and> fst (mem_sbrk (MAX_of (adjust_size 1) DEFAULT_CHUNKSIZE) heap_full) = - 1
   \<and> mm_malloc 1 heap_full = Some (0, heap_full)
   \<and> find_fit (adjust_size 1) heap1 = Some 0
   \<and> fst (mem_sbrk (MAX_of (adjust_size 1) DEFAULT_CHUNKSIZE) heap1) \<noteq> - 1
   \<and> mm_malloc 1 heap1 = Some (4112, heap2)
   \<and> mem_brk heap2 = mem_brk heap1 + MAX_of (adjust_size 1) DEFAULT_CHUNKSIZE"
proof -
  have nz: "(1 :: word32) \<noteq> 0" by simp
  have f1: "find_fit (adjust_size 1) heap_full = Some 0"
    by (simp add: heap_full_def heap1_def find_fit_def find_fit_loop_null)
  have f2: "find_fit (adjust_size 1) heap1 = Some 0"
    by (simp add: heap1_def find_fit_def find_fit_loop_null)
  have b1: "fst (mem_sbrk (MAX_of (adjust_size 1) DEFAULT_CHUNKSIZE) heap_full) = - 1"
    by (simp add: heap_full_def heap1_def adjust_size_def macro_defs mem_sbrk_def)
  have b2: "fst (mem_sbrk (MAX_of (adjust_size 1) DEFAULT_CHUNKSIZE) heap1) \<noteq> - 1"
    by (simp add: heap1_def adjust_size_def macro_defs mem_sbrk_def)
  show ?thesis
    using nz f1 f2 b1 b2 mm_malloc_heap1
      mm_malloc_requests_growth [OF nz f1] mm_malloc_requests_growth [OF nz f2]
    by simp
qed

section \<open>Addresses as offsets\<close>

lemma offset_neq:
  fixes h :: word32
  assumes "i \<noteq> j" and "i < 2 ^ 32" and "j < 2 ^ 32"
  shows "h + of_nat i \<noteq> h + of_nat j"
proof
  assume "h + of_nat i = h + of_nat j"
  then have "(of_nat i :: word32) = of_nat j" by simp
  then have "unat (of_nat i :: word32) = unat (of_nat j :: word32)" by simp
  then show False using assms by (simp add: unat_of_nat)
qed

lemma in_heap_at_offset:
  fixes h :: word32
  assumes "h AND 3 = 0" and "mem_heap s \<le> h" and "4 dvd n"
    and "unat h + n + 4 \<le> unat (mem_brk s)"
  shows "in_heap s (h + of_nat n)"
proof -
  have lt: "n < 2 ^ 32"
    using assms(4) unsigned_less [of "mem_brk s", where 'a = nat] by simp
  then have u: "unat (of_nat n :: word32) = n" by (simp add: unat_of_nat)
  have "4 dvd (of_nat n :: word32)"
    using assms(3) by (metis of_nat_dvd_iff of_nat_numeral dvd_trans dvd_refl of_nat_mult dvdE dvd_triv_left)
  then have "(of_nat n :: word32) AND 3 = 0" by (simp add: and3_dvd4)
  then show ?thesis
    using assms(1,2,4) u by (intro in_heap_offset) simp_all
qed

lemma distinct_by_offset:
  fixes h :: word32
  assumes "distinct (map (\<lambda>x. unat (x - h)) xs)"
  shows "distinct xs" and "distinct (rev xs)"
  using assms by (simp_all add: distinct_map)

lemma unat_offset:
  fixes h :: word32
  assumes "x = h + of_nat n" and "n < 2 ^ 32"
  shows "unat (x - h) = n"
proof -
  have "x - h = of_nat n" by (simp add: assms(1))
  then have "unat (x - h) = n mod 2 ^ 32" by (simp only: unat_of_nat) simp
  then show ?thesis using assms(2) by simp
qed

text \<open>The words of a block, as offsets from its header.\<close>

lemma block_words:
  assumes blk: "block_in_heap s bp cf"
  shows "HDRP bp AND 3 = 0" and "mem_heap s \<le> HDRP bp"
    and "unat (HDRP bp) + unat cf \<le> unat (mem_brk s)"
proof -
  from blk have b: "bp AND 3 = 0" "unat (mem_heap s) + 4 \<le> unat bp"
    "unat bp + unat cf \<le> unat (mem_brk s) + 4"
    by (simp_all add: block_in_heap_def)
  have u: "unat (bp - 4) = unat bp - 4"
    using b(2) by (simp add: unat_sub word_le_nat_alt)
  have "4 dvd bp - 4" using b(1) by (simp add: and3_dvd4)
  then show "HDRP bp AND 3 = 0" by (simp add: HDRP_def WSIZE_def and3_dvd4)
  show "mem_heap s \<le> HDRP bp"
    using b(2) u by (simp add: HDRP_def WSIZE_def word_le_nat_alt)
  show "unat (HDRP bp) + unat cf \<le> unat (mem_brk s)"
    using b(2,3) u by (simp add: HDRP_def WSIZE_def)
qed

lemma block_word_in_heap:
  assumes "block_in_heap s bp cf" and "4 dvd n" and "n + 4 \<le> unat cf"
  shows "in_heap s (HDRP bp + of_nat n)"
  using block_words [OF assms(1)] assms(2,3) by (intro in_heap_at_offset) simp_all

section \<open>The list operations on explicit states\<close>

lemma add_free_empty:
  assumes "FREE_LIST_ROOT s = 0" and "in_heap s (PREVP bp)" and "in_heap s bp"
  shows "add_free bp s =
     Some (s\<lparr>mem := (mem s)(PREVP bp := 0, bp := 0), FREE_LIST_ROOT := bp\<rparr>)"
  using assms by (simp add: add_free_def WRITE_def READ_def NEXTP_def)

lemma add_free_last:
  assumes "FREE_LIST_ROOT s \<noteq> 0" and "in_heap s (FREE_LIST_ROOT s)"
    and "FREE_LIST_ROOT s \<noteq> PREVP bp" and "mem s (FREE_LIST_ROOT s) = 0"
    and "in_heap s (PREVP bp)" and "in_heap s bp"
  shows "add_free bp s =
     Some (s\<lparr>mem := (mem s)(PREVP bp := 0, bp := 0), FREE_LIST_ROOT := bp\<rparr>)"
  using assms by (simp add: add_free_def WRITE_def READ_def NEXTP_def)

lemma add_free_more:
  assumes "FREE_LIST_ROOT s \<noteq> 0" and "in_heap s (FREE_LIST_ROOT s)"
    and "FREE_LIST_ROOT s \<noteq> PREVP bp" and "mem s (FREE_LIST_ROOT s) = rn" and "rn \<noteq> 0"
    and "in_heap s (PREVP rn)" and "in_heap s (PREVP bp)" and "in_heap s bp"
  shows "add_free bp s =
     Some (s\<lparr>mem := (mem s)(PREVP bp := 0, PREVP rn := bp, bp := rn), FREE_LIST_ROOT := bp\<rparr>)"
  using assms by (simp add: add_free_def WRITE_def READ_def NEXTP_def)

lemma add_free_gen:
  assumes "in_heap s (PREVP bp)" and "in_heap s bp"
    and "FREE_LIST_ROOT s \<noteq> 0 \<Longrightarrow> in_heap s (FREE_LIST_ROOT s) \<and> FREE_LIST_ROOT s \<noteq> PREVP bp"
    and "nx = (if FREE_LIST_ROOT s = 0 then 0 else mem s (FREE_LIST_ROOT s))"
    and "nx \<noteq> 0 \<Longrightarrow> in_heap s (PREVP nx)"
  shows "add_free bp s =
     Some (s\<lparr>mem := (if nx \<noteq> 0 then (mem s)(PREVP bp := 0, PREVP nx := bp)
                      else (mem s)(PREVP bp := 0))(bp := nx),
              FREE_LIST_ROOT := bp\<rparr>)"
proof (cases "FREE_LIST_ROOT s = 0")
  case True
  then show ?thesis
    using assms(1,2,4) by (simp add: add_free_def WRITE_def READ_def NEXTP_def)
next
  case False
  with assms(3) have r: "in_heap s (FREE_LIST_ROOT s)" "FREE_LIST_ROOT s \<noteq> PREVP bp" by simp_all
  from False assms(4) have nx: "nx = mem s (FREE_LIST_ROOT s)" by simp
  show ?thesis
  proof (cases "nx = 0")
    case True
    then show ?thesis
      using False r nx assms(1,2) by (simp add: add_free_def WRITE_def READ_def NEXTP_def)
  next
    case nz: False
    with assms(5) have "in_heap s (PREVP nx)" by simp
    then show ?thesis
      using False r nx nz assms(1,2) by (simp add: add_free_def WRITE_def READ_def NEXTP_def)
  qed
qed

lemma fb_patching_head:
  assumes "in_heap s (PREVP bp)" and "in_heap s bp" and "mem s (PREVP bp) = 0"
    and "nx = mem s bp" and "nx \<noteq> 0 \<Longrightarrow> in_heap s (PREVP nx)"
  shows "fb_patching bp s =
     Some (s\<lparr>FREE_LIST_ROOT := nx,
              mem := (if nx \<noteq> 0 then (mem s)(PREVP nx := 0) else mem s)\<rparr>)"
  using assms by (simp add: fb_patching_def WRITE_def READ_def NEXTP_def)

section \<open>Placement (C5)\<close>

lemma handle_malloc_whole:
  assumes hd: "GET_SIZE s (HDRP bp) = Some cf"
    and blk: "block_in_heap s bp cf"
    and fit: "asize \<le> cf" and al: "asize AND 7 = 0" and nz: "asize \<noteq> 0"
    and unlink: "fb_patching bp s = Some s0"
    and small: "cf - asize < DSIZE * 2"
  shows "handle_malloc bp asize s =
      Some (s0\<lparr>mem := (mem s0)(HDRP bp := PACK cf 1, bp + cf - DSIZE := PACK cf 1)\<rparr>)"
    and "in_heap s (HDRP bp)" and "in_heap s (bp + cf - DSIZE)" and "HDRP bp \<noteq> bp + cf - DSIZE"
proof -
  define h where "h = HDRP bp"
  define nc where "nc = unat cf"
  have cf7: "cf AND 7 = 0" by (rule GET_SIZE_aligned [OF hd])
  have nc8: "8 \<le> nc"
  proof -
    have "8 dvd unat asize" using al by (simp add: and7_dvd8_nat)
    moreover have "unat asize \<noteq> 0" using nz by (simp add: unat_eq_0)
    ultimately have "8 \<le> unat asize" by (auto elim!: dvdE)
    then show ?thesis using fit by (simp add: nc_def word_le_nat_alt)
  qed
  have ofc: "of_nat nc = cf" by (simp add: nc_def)
  have nclt: "nc < 2 ^ 32"
    using unsigned_less [of cf, where 'a = nat] by (simp add: nc_def)
  have f2: "bp + cf - DSIZE = h + of_nat (nc - 4)"
    using nc8 by (simp add: h_def HDRP_def WSIZE_def DSIZE_def ofc)
  have h0: "h = h + of_nat 0" by simp
  have ne: "h \<noteq> bp + cf - DSIZE"
    unfolding f2 by (subst h0, rule offset_neq) (use nc8 nclt in simp_all)
  have sb: "in_heap s0 p = in_heap s p" for p
    by (rule same_bounds_in_heap [OF fb_patching_bounds [OF unlink]])
  have ih: "in_heap s h"
    using block_word_in_heap [OF blk, of 0] nc8 by (simp add: h_def nc_def)
  have "8 dvd nc" using cf7 by (simp add: and7_dvd8_nat nc_def)
  then have "4 dvd nc - 4" using nc8 by presburger
  then have if2: "in_heap s (bp + cf - DSIZE)"
    unfolding f2 h_def using block_word_in_heap [OF blk, of "nc - 4"] nc8 by (simp add: nc_def)
  have gs: "GET_SIZE (s0\<lparr>mem := (mem s0)(h := PACK cf 1)\<rparr>) h = Some cf"
    using ih cf7 by (intro GET_SIZE_PACK [where a = 1]) (simp_all add: sb)
  show "handle_malloc bp asize s =
      Some (s0\<lparr>mem := (mem s0)(HDRP bp := PACK cf 1, bp + cf - DSIZE := PACK cf 1)\<rparr>)"
    using small ih if2 gs hd
    by (simp add: handle_malloc_def unlink FTRP_def WRITE_def sb h_def [symmetric])
  show "in_heap s (HDRP bp)" using ih by (simp add: h_def)
  show "in_heap s (bp + cf - DSIZE)" by (rule if2)
  show "HDRP bp \<noteq> bp + cf - DSIZE" using ne by (simp add: h_def)
qed

lemma handle_malloc_split:
  assumes hd: "GET_SIZE s (HDRP bp) = Some cf"
    and blk: "block_in_heap s bp cf"
    and fit: "asize \<le> cf" and al: "asize AND 7 = 0" and nz: "asize \<noteq> 0"
    and unlink: "fb_patching bp s = Some s0"
    and big: "\<not> cf - asize < DSIZE * 2"
    and lst: "list_clear 2 s0 (FREE_LIST_ROOT s0) (HDRP bp) cf"
  shows "\<exists>s'. handle_malloc bp asize s = Some s'
      \<and> READ s' (HDRP bp) = Some (PACK asize 1)
      \<and> READ s' (bp + asize - DSIZE) = Some (PACK asize 1)
      \<and> READ s' (HDRP (bp + asize)) = Some (PACK (cf - asize) 0)
      \<and> READ s' (bp + cf - DSIZE) = Some (PACK (cf - asize) 0)
      \<and> FREE_LIST_ROOT s' = bp + asize
      \<and> READ s' (PREVP (bp + asize)) = Some 0"
proof -
  define h where "h = HDRP bp"
  define f1 where "f1 = bp + asize - DSIZE"
  define nf where "nf = bp + asize"
  define nh where "nh = HDRP nf"
  define lp where "lp = PREVP nf"
  define f2 where "f2 = bp + cf - DSIZE"
  define rm where "rm = cf - asize"
  define na where "na = unat asize"
  define nc where "nc = unat cf"
  define r where "r = FREE_LIST_ROOT s0"
  have cf7: "cf AND 7 = 0" by (rule GET_SIZE_aligned [OF hd])
  have na8: "8 dvd na" using al by (simp add: and7_dvd8_nat na_def)
  have nc8: "8 dvd nc" using cf7 by (simp add: and7_dvd8_nat nc_def)
  have "na \<noteq> 0" using nz by (simp add: unat_eq_0 na_def)
  with na8 have na_ge: "8 \<le> na" by (auto elim!: dvdE)
  have urm: "unat rm = nc - na"
    using fit by (simp add: rm_def na_def nc_def unat_sub)
  have "16 \<le> unat rm"
    using big by (simp add: rm_def DSIZE_def word_less_nat_alt)
  then have nc_ge: "na + 16 \<le> nc" using urm by simp
  have nclt: "nc < 2 ^ 32"
    using unsigned_less [of cf, where 'a = nat] by (simp add: nc_def)
  have rm7: "rm AND 7 = 0"
  proof -
    have "8 dvd cf - asize" using cf7 al by (simp add: and7_dvd8)
    then show ?thesis by (simp add: rm_def and7_dvd8)
  qed
  have ofa: "of_nat na = asize" and ofc: "of_nat nc = cf" by (simp_all add: na_def nc_def)
  have o_f1: "f1 = h + of_nat (na - 4)"
    using na_ge by (simp add: f1_def h_def HDRP_def WSIZE_def DSIZE_def ofa)
  have o_nh: "nh = h + of_nat na"
    by (simp add: nh_def nf_def h_def HDRP_def WSIZE_def ofa)
  have o_nf: "nf = h + of_nat (na + 4)"
    by (simp add: nf_def h_def HDRP_def WSIZE_def ofa)
  have o_lp: "lp = h + of_nat (na + 8)"
    by (simp add: lp_def nf_def h_def HDRP_def PREVP_def WSIZE_def ofa)
  have o_f2: "f2 = h + of_nat (nc - 4)"
    using na_ge nc_ge by (simp add: f2_def h_def HDRP_def WSIZE_def DSIZE_def ofc)
  have off: "unat (h - h) = 0" "unat (f1 - h) = na - 4" "unat (nh - h) = na"
    "unat (nf - h) = na + 4" "unat (lp - h) = na + 8" "unat (f2 - h) = nc - 4"
    using nc_ge nclt
    by (simp, (intro unat_offset [OF o_f1] unat_offset [OF o_nh] unat_offset [OF o_nf]
        unat_offset [OF o_lp] unat_offset [OF o_f2]; simp)+)
  have D0: "distinct [h, f1, nh, nf, lp, f2]" "distinct (rev [h, f1, nh, nf, lp, f2])"
  proof -
    have "distinct (map (\<lambda>x. unat (x - h)) [h, f1, nh, nf, lp, f2])"
      using na_ge nc_ge by (simp add: off) arith
    then show "distinct [h, f1, nh, nf, lp, f2]" "distinct (rev [h, f1, nh, nf, lp, f2])"
      by (rule distinct_by_offset)+
  qed
  have Dq: "distinct [q, h, f1, nh, nf, lp, f2]" "distinct (rev [q, h, f1, nh, nf, lp, f2])"
    if "cf \<le> q - h" for q
  proof -
    have "nc \<le> unat (q - h)" using that by (simp add: nc_def word_le_nat_alt)
    then have "distinct (map (\<lambda>x. unat (x - h)) [q, h, f1, nh, nf, lp, f2])"
      using na_ge nc_ge by (simp add: off) arith
    then show "distinct [q, h, f1, nh, nf, lp, f2]" "distinct (rev [q, h, f1, nh, nf, lp, f2])"
      by (rule distinct_by_offset)+
  qed
  note ne0 = D0 [simplified]
  have sb: "in_heap s0 p = in_heap s p" for p
    by (rule same_bounds_in_heap [OF fb_patching_bounds [OF unlink]])
  have ih: "in_heap s0 (h + of_nat n)" if "4 dvd n" and "n + 4 \<le> nc" for n
    unfolding sb h_def using block_word_in_heap [OF blk that(1)] that(2) by (simp add: nc_def)
  have i_h: "in_heap s0 h" using ih [of 0] nc_ge by simp
  have i_f1: "in_heap s0 f1" unfolding o_f1 using na8 na_ge nc_ge by (intro ih) presburger+
  have i_nh: "in_heap s0 nh" unfolding o_nh using na8 nc_ge by (intro ih) presburger+
  have i_nf: "in_heap s0 nf" unfolding o_nf using na8 nc_ge by (intro ih) presburger+
  have i_lp: "in_heap s0 lp" unfolding o_lp using na8 nc_ge by (intro ih) presburger+
  have i_f2: "in_heap s0 f2" unfolding o_f2 using nc8 na_ge nc_ge by (intro ih) presburger+
  define s1 where "s1 = s0\<lparr>mem := (mem s0)(h := PACK asize 1)\<rparr>"
  define s2 where "s2 = s1\<lparr>mem := (mem s1)(f1 := PACK asize 1)\<rparr>"
  define s3 where "s3 = s2\<lparr>mem := (mem s2)(nh := PACK (cf - asize) 0)\<rparr>"
  define s4 where "s4 = s3\<lparr>mem := (mem s3)(f2 := PACK (cf - asize) 0)\<rparr>"
  have hb: "HDRP bp = h" "bp - WSIZE = h" by (simp_all add: h_def HDRP_def)
  have W1: "WRITE (HDRP bp) (PACK asize 1) s0 = Some s1"
    using i_h by (simp add: hb s1_def WRITE_eq)
  have "GET_SIZE s1 h = Some asize"
    using i_h al by (intro GET_SIZE_PACK [where a = 1]) (simp_all add: s1_def)
  then have F1: "FTRP s1 bp = Some f1" by (simp add: FTRP_def hb f1_def)
  have W2: "WRITE f1 (PACK asize 1) s1 = Some s2"
    using i_f1 by (simp add: s2_def s1_def WRITE_eq)
  have "GET_SIZE s2 h = Some asize"
    using i_h al ne0 by (intro GET_SIZE_PACK [where a = 1]) (simp_all add: s2_def s1_def)
  then have N2: "NEXT_BLKP s2 bp = Some nf" by (simp add: NEXT_BLKP_def hb nf_def)
  have W3: "WRITE (HDRP nf) (PACK (cf - asize) 0) s2 = Some s3"
    using i_nh by (simp add: nh_def [symmetric] s3_def s2_def s1_def WRITE_eq)
  have "GET_SIZE s3 nh = Some rm"
    using i_nh rm7 by (intro GET_SIZE_PACK [where a = 0]) (simp_all add: s3_def s2_def s1_def rm_def)
  moreover have "nf + rm - DSIZE = f2" by (simp add: nf_def rm_def f2_def)
  ultimately have F3: "FTRP s3 nf = Some f2" by (simp add: FTRP_def nh_def [symmetric])
  have W4: "WRITE f2 (PACK (cf - asize) 0) s3 = Some s4"
    using i_f2 by (simp add: s4_def s3_def s2_def s1_def WRITE_eq)
  have hm: "handle_malloc bp asize s = add_free nf s4"
    using big by (simp add: handle_malloc_def hd unlink W1 F1 W2 N2 W3 F3 W4)
  have i4: "in_heap s4 p = in_heap s0 p" for p
    by (simp add: s4_def s3_def s2_def s1_def)
  have r4: "FREE_LIST_ROOT s4 = r" by (simp add: s4_def s3_def s2_def s1_def r_def)
  have m4: "mem s4 = (mem s0)(h := PACK asize 1, f1 := PACK asize 1,
      nh := PACK (cf - asize) 0, f2 := PACK (cf - asize) 0)"
    by (simp add: s4_def s3_def s2_def s1_def)
  have fin: "READ s' h = Some (PACK asize 1) \<and> READ s' f1 = Some (PACK asize 1)
      \<and> READ s' nh = Some (PACK (cf - asize) 0) \<and> READ s' f2 = Some (PACK (cf - asize) 0)
      \<and> FREE_LIST_ROOT s' = nf \<and> READ s' lp = Some 0"
    if "s' = s4\<lparr>mem := M, FREE_LIST_ROOT := nf\<rparr>"
      and "M = (mem s4)(lp := 0, nf := x) \<or> (M = (mem s4)(lp := 0, q := nf, nf := x) \<and> cf \<le> q - h)"
    for s' M x q
  proof -
    from that(2) show ?thesis
    proof
      assume "M = (mem s4)(lp := 0, nf := x)"
      then show ?thesis
        using i_h i_f1 i_nh i_f2 i_lp ne0 by (simp add: that(1) READ_def i4 m4)
    next
      assume a: "M = (mem s4)(lp := 0, q := nf, nf := x) \<and> cf \<le> q - h"
      note neq = Dq [OF conjunct2 [OF a], simplified]
      show ?thesis
        using i_h i_f1 i_nh i_f2 i_lp ne0 neq by (simp add: that(1) READ_def i4 m4 a)
    qed
  qed
  have goal: "\<exists>s'. add_free nf s4 = Some s' \<and> READ s' h = Some (PACK asize 1)
      \<and> READ s' f1 = Some (PACK asize 1)
      \<and> READ s' nh = Some (PACK (cf - asize) 0) \<and> READ s' f2 = Some (PACK (cf - asize) 0)
      \<and> FREE_LIST_ROOT s' = nf \<and> READ s' lp = Some 0"
  proof (cases "r = 0")
    case True
    have "add_free nf s4 = Some (s4\<lparr>mem := (mem s4)(lp := 0, nf := 0), FREE_LIST_ROOT := nf\<rparr>)"
      using add_free_empty [of s4 nf] True i_lp i_nf by (simp add: r4 i4 lp_def)
    then show ?thesis using fin [OF refl, of _ 0] by blast
  next
    case False
    from lst False have lr: "in_heap s0 r" "cf \<le> r - h"
      and ln: "mem s0 r = 0 \<or> (in_heap s0 (PREVP (mem s0 r)) \<and> cf \<le> PREVP (mem s0 r) - h)"
      by (auto simp: numeral_2_eq_2 r_def h_def)
    note ner = Dq [OF lr(2), simplified]
    have mr: "mem s4 r = mem s0 r" using ner by (simp add: m4)
    have rlp: "r \<noteq> PREVP nf" using ner by (simp add: lp_def)
    show ?thesis
    proof (cases "mem s0 r = 0")
      case True
      have "add_free nf s4 = Some (s4\<lparr>mem := (mem s4)(lp := 0, nf := 0), FREE_LIST_ROOT := nf\<rparr>)"
        using add_free_last [of s4 nf] False lr(1) rlp True i_lp i_nf
        by (simp add: r4 i4 lp_def mr)
      then show ?thesis using fin [OF refl, of _ 0] by blast
    next
      case rn: False
      define q where "q = PREVP (mem s0 r)"
      from ln rn have lq: "in_heap s0 q" "cf \<le> q - h" by (simp_all add: q_def)
      have "add_free nf s4 =
          Some (s4\<lparr>mem := (mem s4)(lp := 0, q := nf, nf := mem s0 r), FREE_LIST_ROOT := nf\<rparr>)"
        using add_free_more [of s4 nf "mem s0 r"] False lr(1) rlp rn lq(1) i_lp i_nf
        by (simp add: r4 i4 lp_def mr q_def)
      then show ?thesis using fin [OF refl, of _ "mem s0 r" q] lq(2) by blast
    qed
  qed
  show ?thesis
    using goal unfolding hm h_def f1_def nh_def f2_def nf_def lp_def by simp
qed

text \<open>
  What \<open>handle_malloc\<close> does to the tags, for every candidate \<open>bp\<close> whose header says
  size \<open>cf\<close>, that lies in the heap, fits the non-zero multiple of 8 \<open>asize\<close> and can be
  unlinked: if \<open>cf - asize\<close> is less than 16, header and footer of \<open>bp\<close> hold
  \<open>PACK(cf, 1)\<close>; otherwise they hold \<open>PACK(asize, 1)\<close>, header and footer of the remainder
  hold \<open>PACK(cf - asize, 0)\<close>, and the remainder is the root of the free list with a null
  prev-link (given that the first two nodes of the list left after unlinking do not lie
  inside the candidate). Nothing is said here about the remainder's next-link.
\<close>

lemma handle_malloc_tags:
  assumes "GET_SIZE s (HDRP bp) = Some cf" and "block_in_heap s bp cf"
    and "asize \<le> cf" and "asize AND 7 = 0" and "asize \<noteq> 0"
    and "fb_patching bp s = Some s0"
  shows "(cf - asize < DSIZE * 2 \<longrightarrow>
            do { s' \<leftarrow> handle_malloc bp asize s;
                 hdr \<leftarrow> READ s' (HDRP bp);
                 ftr \<leftarrow> READ s' (bp + cf - DSIZE);
                 Some (hdr, ftr) }
            = Some (PACK cf 1, PACK cf 1))
       \<and> (\<not> cf - asize < DSIZE * 2 \<and> list_clear 2 s0 (FREE_LIST_ROOT s0) (HDRP bp) cf \<longrightarrow>
            do { s' \<leftarrow> handle_malloc bp asize s;
                 hdr \<leftarrow> READ s' (HDRP bp);
                 ftr \<leftarrow> READ s' (bp + asize - DSIZE);
                 new_hdr \<leftarrow> READ s' (HDRP (bp + asize));
                 new_ftr \<leftarrow> READ s' (bp + cf - DSIZE);
                 new_prev \<leftarrow> READ s' (PREVP (bp + asize));
                 Some (hdr, ftr, new_hdr, new_ftr, FREE_LIST_ROOT s', new_prev) }
            = Some (PACK asize 1, PACK asize 1, PACK (cf - asize) 0, PACK (cf - asize) 0,
                    bp + asize, 0))"
proof (intro conjI impI)
  assume small: "cf - asize < DSIZE * 2"
  note w = handle_malloc_whole [OF assms small]
  have sb: "in_heap s0 p = in_heap s p" for p
    by (rule same_bounds_in_heap [OF fb_patching_bounds [OF assms(6)]])
  show "do { s' \<leftarrow> handle_malloc bp asize s;
             hdr \<leftarrow> READ s' (HDRP bp);
             ftr \<leftarrow> READ s' (bp + cf - DSIZE);
             Some (hdr, ftr) }
        = Some (PACK cf 1, PACK cf 1)"
    using w(2,3,4) by (simp add: w(1) sb)
next
  assume "\<not> cf - asize < DSIZE * 2 \<and> list_clear 2 s0 (FREE_LIST_ROOT s0) (HDRP bp) cf"
  then have big: "\<not> cf - asize < DSIZE * 2"
    and lst: "list_clear 2 s0 (FREE_LIST_ROOT s0) (HDRP bp) cf" by simp_all
  from handle_malloc_split [OF assms big lst]
  show "do { s' \<leftarrow> handle_malloc bp asize s;
             hdr \<leftarrow> READ s' (HDRP bp);
             ftr \<leftarrow> READ s' (bp + asize - DSIZE);
             new_hdr \<leftarrow> READ s' (HDRP (bp + asize));
             new_ftr \<leftarrow> READ s' (bp + cf - DSIZE);
             new_prev \<leftarrow> READ s' (PREVP (bp + asize));
             Some (hdr, ftr, new_hdr, new_ftr, FREE_LIST_ROOT s', new_prev) }
        = Some (PACK asize 1, PACK asize 1, PACK (cf - asize) 0, PACK (cf - asize) 0,
                bp + asize, 0)"
    by auto
qed

lemma handle_malloc_tags_example:
  "GET_SIZE heap2 (HDRP 4128) = Some 4080 \<and> block_in_heap heap2 4128 4080
   \<and> fb_patching 4128 heap2 = Some (heap2\<lparr>FREE_LIST_ROOT := 0\<rparr>)
   \<and> (4080 :: word32) - 4072 < DSIZE * 2
   \<and> do { s' \<leftarrow> handle_malloc 4128 4072 heap2;
          hdr \<leftarrow> READ s' (HDRP 4128);
          ftr \<leftarrow> READ s' (4128 + 4080 - DSIZE);
          Some (hdr, ftr) }
       = Some (4081, 4081)
   \<and> \<not> (4080 :: word32) - 16 < DSIZE * 2
   \<and> list_clear 2 (heap2\<lparr>FREE_LIST_ROOT := 0\<rparr>) 0 (HDRP 4128) 4080
   \<and> do { s' \<leftarrow> handle_malloc 4128 16 heap2;
          hdr \<leftarrow> READ s' (HDRP 4128);
          ftr \<leftarrow> READ s' (4128 + 16 - DSIZE);
          new_hdr \<leftarrow> READ s' (HDRP (4128 + 16));
          new_ftr \<leftarrow> READ s' (4128 + 4080 - DSIZE);
          new_prev \<leftarrow> READ s' (PREVP (4128 + 16));
          Some (hdr, ftr, new_hdr, new_ftr, FREE_LIST_ROOT s', new_prev) }
       = Some (17, 17, 4064, 4064, 4144, 0)"
proof -
  have h1: "GET_SIZE heap2 (HDRP 4128) = Some 4080"
    by (simp add: heap2_def macro_defs mem_defs)
  have h2: "block_in_heap heap2 4128 4080"
    by (simp add: heap2_def block_in_heap_def)
  have h3: "fb_patching 4128 heap2 = Some (heap2\<lparr>FREE_LIST_ROOT := 0\<rparr>)"
    by (simp add: heap2_def fb_patching_def macro_defs mem_defs)
  have a1: "(4072 :: word32) \<le> 4080" "(4072 :: word32) AND 7 = 0" "(4072 :: word32) \<noteq> 0"
    and a2: "(16 :: word32) \<le> 4080" "(16 :: word32) AND 7 = 0" "(16 :: word32) \<noteq> 0"
    by simp_all
  have c1: "(4080 :: word32) - 4072 < DSIZE * 2" by (simp add: DSIZE_def)
  have c2: "\<not> (4080 :: word32) - 16 < DSIZE * 2" by (simp add: DSIZE_def)
  have l: "list_clear 2 (heap2\<lparr>FREE_LIST_ROOT := 0\<rparr>) 0 (HDRP 4128) 4080"
    by (simp add: numeral_2_eq_2)
  have l': "list_clear 2 (heap2\<lparr>FREE_LIST_ROOT := 0\<rparr>)
      (FREE_LIST_ROOT (heap2\<lparr>FREE_LIST_ROOT := 0\<rparr>)) (HDRP 4128) 4080"
    using l by simp
  show ?thesis
    using h1 h2 h3 c1 c2 l l'
      handle_malloc_tags [OF h1 h2 a1 h3] handle_malloc_tags [OF h1 h2 a2 h3]
    by (simp add: PACK_def)
qed


section \<open>Coalescing (C6)\<close>

lemma free_adjacent_pair:
  assumes A: "alloc_block s pa a" and B: "alloc_block s (pa + a) b"
    and P: "alloc_block s (pa - c) c"
    and N: "GET_ALLOC s (HDRP (pa + a + b)) = Some 1"
    and a7: "a AND 7 = 0" and b7: "b AND 7 = 0" and c7: "c AND 7 = 0"
    and a16: "16 \<le> a" and b16: "16 \<le> b" and c0: "c \<noteq> 0"
    and al: "pa AND 3 = 0"
    and lo: "unat (mem_heap s) + unat c + 4 \<le> unat pa"
    and hi: "unat pa + unat a + unat b \<le> unat (mem_brk s)"
    and lst: "list_clear 3 s (FREE_LIST_ROOT s) (HDRP (pa - c)) (c + a + b + WSIZE)"
  shows "do { s1 \<leftarrow> mm_free pa s; s2 \<leftarrow> mm_free (pa + a) s1;
              hdr \<leftarrow> READ s2 (HDRP pa); ftr \<leftarrow> READ s2 (pa + (a + b) - DSIZE);
              prev_ftr \<leftarrow> READ s2 (pa - DSIZE);
              next_alloc \<leftarrow> GET_ALLOC s2 (HDRP (pa + (a + b)));
              Some (hdr, ftr, FREE_LIST_ROOT s2, prev_ftr, next_alloc) }
         = Some (PACK (a + b) 0, PACK (a + b) 0, pa, PACK c 1, 1)"
    and "do { s1 \<leftarrow> mm_free (pa + a) s; s2 \<leftarrow> mm_free pa s1;
              hdr \<leftarrow> READ s2 (HDRP pa); ftr \<leftarrow> READ s2 (pa + (a + b) - DSIZE);
              prev_ftr \<leftarrow> READ s2 (pa - DSIZE);
              next_alloc \<leftarrow> GET_ALLOC s2 (HDRP (pa + (a + b)));
              Some (hdr, ftr, FREE_LIST_ROOT s2, prev_ftr, next_alloc) }
         = Some (PACK (a + b) 0, PACK (a + b) 0, pa, PACK c 1, 1)"
proof -
  define pp where "pp = pa - c"
  define hP where "hP = HDRP pp"
  define fP where "fP = pa - DSIZE"
  define hA where "hA = HDRP pa"
  define lpA where "lpA = PREVP pa"
  define fA where "fA = pa + a - DSIZE"
  define pb where "pb = pa + a"
  define hB where "hB = HDRP pb"
  define lpB where "lpB = PREVP pb"
  define fB where "fB = pb + b - DSIZE"
  define pn where "pn = pb + b"
  define hN where "hN = HDRP pn"
  define na where "na = unat a"
  define nb where "nb = unat b"
  define nc where "nc = unat c"
  define r0 where "r0 = FREE_LIST_ROOT s"
  define rn where "rn = (if r0 = 0 then 0 else mem s r0)"
  define rn2 where "rn2 = (if rn = 0 then 0 else mem s rn)"
  define q1 where "q1 = PREVP rn"
  define q2 where "q2 = PREVP rn2"
  have na16: "16 \<le> na" using a16 by (simp add: na_def word_le_nat_alt)
  have nb16: "16 \<le> nb" using b16 by (simp add: nb_def word_le_nat_alt)
  have na8: "8 dvd na" using a7 by (simp add: and7_dvd8_nat na_def)
  have nb8: "8 dvd nb" using b7 by (simp add: and7_dvd8_nat nb_def)
  have nc8: "8 dvd nc" using c7 by (simp add: and7_dvd8_nat nc_def)
  have "nc \<noteq> 0" using c0 by (simp add: unat_eq_0 nc_def)
  with nc8 have nc_ge: "8 \<le> nc" by (auto elim!: dvdE)
  have lo': "unat (mem_heap s) + nc + 4 \<le> unat pa" using lo by (simp add: nc_def)
  have hi': "unat pa + na + nb \<le> unat (mem_brk s)" using hi by (simp add: na_def nb_def)
  have brk: "unat (mem_brk s) < 2 ^ 32"
    using unsigned_less [of "mem_brk s", where 'a = nat] by simp
  have ofa: "of_nat na = a" and ofb: "of_nat nb = b" and ofc: "of_nat nc = c"
    by (simp_all add: na_def nb_def nc_def)
  have ab7: "(a + b) AND 7 = 0" "(b + a) AND 7 = 0"
    using a7 b7 by (simp_all add: and7_dvd8)
  (* offsets from the header of the previous block *)
  have o_fP: "fP = hP + of_nat (nc - 4)"
    using nc_ge by (simp add: fP_def hP_def pp_def HDRP_def WSIZE_def DSIZE_def ofc)
  have o_hA: "hA = hP + of_nat nc"
    by (simp add: hA_def hP_def pp_def HDRP_def WSIZE_def ofc)
  have o_pa: "pa = hP + of_nat (nc + 4)"
    by (simp add: hP_def pp_def HDRP_def WSIZE_def ofc)
  have o_lpA: "lpA = hP + of_nat (nc + 8)"
    by (simp add: lpA_def hP_def pp_def HDRP_def PREVP_def WSIZE_def ofc)
  have o_fA: "fA = hP + of_nat (nc + na - 4)"
    using nc_ge by (simp add: fA_def hP_def pp_def HDRP_def WSIZE_def DSIZE_def ofc ofa)
  have o_hB: "hB = hP + of_nat (nc + na)"
    by (simp add: hB_def pb_def hP_def pp_def HDRP_def WSIZE_def ofc ofa)
  have o_pb: "pb = hP + of_nat (nc + na + 4)"
    by (simp add: pb_def hP_def pp_def HDRP_def WSIZE_def ofc ofa)
  have o_lpB: "lpB = hP + of_nat (nc + na + 8)"
    by (simp add: lpB_def pb_def hP_def pp_def HDRP_def PREVP_def WSIZE_def ofc ofa)
  have o_fB: "fB = hP + of_nat (nc + na + nb - 4)"
    using nc_ge by (simp add: fB_def pb_def hP_def pp_def HDRP_def WSIZE_def DSIZE_def ofc ofa ofb)
  have o_hN: "hN = hP + of_nat (nc + na + nb)"
    by (simp add: hN_def pn_def pb_def hP_def pp_def HDRP_def WSIZE_def ofc ofa ofb)
  have tot: "nc + na + nb + 4 < 2 ^ 32" using lo' hi' brk by simp
  have off: "unat (hP - hP) = 0" "unat (fP - hP) = nc - 4" "unat (hA - hP) = nc"
    "unat (pa - hP) = nc + 4" "unat (lpA - hP) = nc + 8" "unat (fA - hP) = nc + na - 4"
    "unat (hB - hP) = nc + na" "unat (pb - hP) = nc + na + 4" "unat (lpB - hP) = nc + na + 8"
    "unat (fB - hP) = nc + na + nb - 4" "unat (hN - hP) = nc + na + nb"
  proof -
    show "unat (hP - hP) = 0" by simp
    show "unat (fP - hP) = nc - 4" by (rule unat_offset [OF o_fP]) (use tot in linarith)
    show "unat (hA - hP) = nc" by (rule unat_offset [OF o_hA]) (use tot in linarith)
    show "unat (pa - hP) = nc + 4" by (rule unat_offset [OF o_pa]) (use tot in linarith)
    show "unat (lpA - hP) = nc + 8" by (rule unat_offset [OF o_lpA]) (use tot na16 in linarith)
    show "unat (fA - hP) = nc + na - 4" by (rule unat_offset [OF o_fA]) (use tot in linarith)
    show "unat (hB - hP) = nc + na" by (rule unat_offset [OF o_hB]) (use tot in linarith)
    show "unat (pb - hP) = nc + na + 4" by (rule unat_offset [OF o_pb]) (use tot nb16 in linarith)
    show "unat (lpB - hP) = nc + na + 8" by (rule unat_offset [OF o_lpB]) (use tot nb16 in linarith)
    show "unat (fB - hP) = nc + na + nb - 4" by (rule unat_offset [OF o_fB]) (use tot in linarith)
    show "unat (hN - hP) = nc + na + nb" by (rule unat_offset [OF o_hN]) (use tot in linarith)
  qed
  have D0: "distinct [hP, fP, hA, pa, lpA, fA, hB, pb, lpB, fB, hN]"
    "distinct (rev [hP, fP, hA, pa, lpA, fA, hB, pb, lpB, fB, hN])"
  proof -
    have "distinct (map (\<lambda>x. unat (x - hP)) [hP, fP, hA, pa, lpA, fA, hB, pb, lpB, fB, hN])"
      using na16 nb16 nc_ge by (simp add: off) arith
    then show "distinct [hP, fP, hA, pa, lpA, fA, hB, pb, lpB, fB, hN]"
      "distinct (rev [hP, fP, hA, pa, lpA, fA, hB, pb, lpB, fB, hN])"
      by (rule distinct_by_offset)+
  qed
  note ne0 = D0 [simplified]
  have Dq: "distinct [q, hP, fP, hA, pa, lpA, fA, hB, pb, lpB, fB, hN]"
    "distinct (rev [q, hP, fP, hA, pa, lpA, fA, hB, pb, lpB, fB, hN])"
    if "c + a + b + WSIZE \<le> q - hP" for q
  proof -
    have "unat (c + a + b + WSIZE) = nc + na + nb + 4"
      using tot unat_offset [of "hP + (c + a + b + WSIZE)" hP "nc + na + nb + 4"]
      by (simp add: ofa ofb ofc WSIZE_def)
    then have "nc + na + nb + 4 \<le> unat (q - hP)"
      using that by (simp add: word_le_nat_alt)
    then have "distinct (map (\<lambda>x. unat (x - hP)) [q, hP, fP, hA, pa, lpA, fA, hB, pb, lpB, fB, hN])"
      using na16 nb16 nc_ge by (simp add: off) arith
    then show "distinct [q, hP, fP, hA, pa, lpA, fA, hB, pb, lpB, fB, hN]"
      "distinct (rev [q, hP, fP, hA, pa, lpA, fA, hB, pb, lpB, fB, hN])"
      by (rule distinct_by_offset)+
  qed
  (* all words of the three blocks and the next header lie in the heap *)
  have uhP: "unat hP = unat pa - nc - 4"
  proof -
    have "unat (pa - c) = unat pa - nc"
      using lo' by (simp add: unat_sub word_le_nat_alt nc_def)
    moreover have "unat (pa - c - 4) = unat (pa - c) - 4"
      using lo' calculation by (simp add: unat_sub word_le_nat_alt)
    ultimately show ?thesis by (simp add: hP_def pp_def HDRP_def WSIZE_def)
  qed
  have hP3: "hP AND 3 = 0"
  proof -
    have "8 dvd c" using c7 by (simp add: and7_dvd8)
    moreover have "(4 :: word32) dvd 8" by (simp add: and3_dvd4 [symmetric])
    ultimately have "4 dvd c" by (rule dvd_trans [rotated])
    moreover have "4 dvd pa" using al by (simp add: and3_dvd4)
    ultimately have "4 dvd pa - c - 4" by simp
    then show ?thesis by (simp add: hP_def pp_def HDRP_def WSIZE_def and3_dvd4)
  qed
  have hPlo: "mem_heap s \<le> hP" using lo' uhP by (simp add: word_le_nat_alt)
  have ih: "in_heap s (hP + of_nat n)" if "4 dvd n" and "n \<le> nc + na + nb" for n
    using hP3 hPlo that(1)
    by (rule in_heap_at_offset) (use that(2) uhP lo' hi' in linarith)
  have i_hP: "in_heap s hP" using ih [of 0] by simp
  have i_fP: "in_heap s fP" unfolding o_fP using nc8 nc_ge by (intro ih) presburger+
  have i_hA: "in_heap s hA" unfolding o_hA using nc8 by (intro ih) presburger+
  have i_pa: "in_heap s pa" by (subst o_pa) (use nc8 na16 in \<open>intro ih; presburger\<close>)
  have i_lpA: "in_heap s lpA" unfolding o_lpA using nc8 na16 by (intro ih) presburger+
  have i_fA: "in_heap s fA" unfolding o_fA using nc8 na8 na16 by (intro ih) presburger+
  have i_hB: "in_heap s hB" unfolding o_hB using nc8 na8 by (intro ih) presburger+
  have i_pb: "in_heap s pb" unfolding o_pb using nc8 na8 nb16 by (intro ih) presburger+
  have i_lpB: "in_heap s lpB" unfolding o_lpB using nc8 na8 nb16 by (intro ih) presburger+
  have i_fB: "in_heap s fB" unfolding o_fB using nc8 na8 nb8 nb16 by (intro ih) presburger+
  have i_hN: "in_heap s hN" unfolding o_hN using nc8 na8 nb8 by (intro ih) presburger+
  note inh = i_hP i_fP i_hA i_pa i_lpA i_fA i_hB i_pb i_lpB i_fB i_hN
  have vals: "mem s hA = PACK a 1" "mem s fA = PACK a 1" "mem s hB = PACK b 1"
    "mem s fB = PACK b 1" "mem s hP = PACK c 1" "mem s fP = PACK c 1" "mem s hN AND 1 = 1"
    using A B P N inh
    by (simp_all add: alloc_block_def READ_def GET_ALLOC_def hA_def fA_def hB_def pb_def fB_def
        hP_def pp_def fP_def hN_def pn_def)
  have eqs: "HDRP pa = hA" "pa - WSIZE = hA" "pa - DSIZE = fP" "pa + a - DSIZE = fA"
    "pa + a = pb" "pa - c = pp" "HDRP pp = hP" "pp + c - DSIZE = fP" "HDRP pb = hB"
    "pb - WSIZE = hB" "pb - DSIZE = fA" "pb - a = pa" "pb + b - DSIZE = fB" "pb + b = pn"
    "HDRP pn = hN" "PREVP pa = lpA" "PREVP pb = lpB" "pn - DSIZE = fB"
    by (simp_all add: hA_def fA_def hB_def pb_def fB_def hP_def pp_def fP_def hN_def pn_def
        lpA_def lpB_def HDRP_def)
  note dec = PACK_fields [OF a7, simplified] PACK_fields [OF b7, simplified]
    PACK_fields [OF c7, simplified] PACK_fields [OF ab7(1), simplified]
    PACK_fields [OF ab7(2), simplified]
  have L0: "in_heap s r0" "c + a + b + WSIZE \<le> r0 - hP" if "r0 \<noteq> 0"
    using lst that by (simp_all add: numeral_3_eq_3 r0_def hP_def pp_def)
  have L1: "in_heap s rn" "in_heap s q1" "c + a + b + WSIZE \<le> rn - hP"
    "c + a + b + WSIZE \<le> q1 - hP" if "rn \<noteq> 0"
    using lst that
    by (auto simp: numeral_3_eq_3 r0_def rn_def q1_def hP_def pp_def split: if_splits)
  have L2: "in_heap s q2" "c + a + b + WSIZE \<le> q2 - hP" if "rn2 \<noteq> 0"
    using lst that
    by (auto simp: numeral_3_eq_3 r0_def rn_def rn2_def q2_def hP_def pp_def split: if_splits)
  note ne_r0 = Dq [OF L0(2), simplified]
  note ne_rn = Dq [OF L1(3), simplified]
  note ne_q1 = Dq [OF L1(4), simplified]
  note ne_q2 = Dq [OF L2(2), simplified]
  have rnq1: "rn \<noteq> q1" by (simp add: q1_def PREVP_def WSIZE_def)
  (* freeing the lower block first *)
  define s1 where "s1 = s\<lparr>mem := (mem s)(hA := PACK a 0)\<rparr>"
  define s2 where "s2 = s1\<lparr>mem := (mem s1)(fA := PACK a 0)\<rparr>"
  define s3 where "s3 = s2\<lparr>mem := (if rn \<noteq> 0 then (mem s2)(lpA := 0, q1 := pa)
      else (mem s2)(lpA := 0))(pa := rn), FREE_LIST_ROOT := pa\<rparr>"
  have b12: "in_heap s1 p = in_heap s p" "in_heap s2 p = in_heap s p" for p
    by (simp_all add: s1_def s2_def)
  have hf1: "handle_free pa s2 = do { t \<leftarrow> add_free pa s2; Some (pa, t) }"
    using inh ne0
    by (simp add: handle_free_def PREV_BLKP_def NEXT_BLKP_def FTRP_def GET_SIZE_def GET_ALLOC_def
        READ_def eqs b12 s1_def s2_def vals dec)
  have rs: "FREE_LIST_ROOT s = r0" by (simp add: r0_def)
  have r2: "FREE_LIST_ROOT s2 = r0" by (simp add: s2_def s1_def r0_def)
  have af1: "add_free pa s2 = Some s3"
  proof -
    have "rn = (if FREE_LIST_ROOT s2 = 0 then 0 else mem s2 (FREE_LIST_ROOT s2))"
      using ne_r0 by (simp add: r2 rn_def s2_def s1_def rs)
    moreover have "FREE_LIST_ROOT s2 \<noteq> 0 \<Longrightarrow>
        in_heap s2 (FREE_LIST_ROOT s2) \<and> FREE_LIST_ROOT s2 \<noteq> PREVP pa"
      using L0 ne_r0 by (simp add: r2 b12 eqs)
    moreover have "rn \<noteq> 0 \<Longrightarrow> in_heap s2 (PREVP rn)"
      using L1(2) by (simp add: b12 q1_def)
    ultimately show ?thesis
      using add_free_gen [of s2 pa rn] inh by (simp add: b12 eqs s3_def q1_def)
  qed
  have mf1: "mm_free pa s = Some s3"
    using inh
    by (simp add: mm_free_def FTRP_def GET_SIZE_def READ_def WRITE_def eqs vals dec
        s1_def [symmetric] b12 s2_def [symmetric] hf1 af1)
  define s4 where "s4 = s3\<lparr>mem := (mem s3)(hB := PACK b 0)\<rparr>"
  define s5 where "s5 = s4\<lparr>mem := (mem s4)(fB := PACK b 0)\<rparr>"
  define s6 where "s6 = s5\<lparr>FREE_LIST_ROOT := rn,
      mem := (if rn \<noteq> 0 then (mem s5)(q1 := 0) else mem s5)\<rparr>"
  define s8 where "s8 = s6\<lparr>mem := (mem s6)(hA := PACK (b + a) 0, fB := PACK (b + a) 0)\<rparr>"
  define s9 where "s9 = s8\<lparr>mem := (if rn2 \<noteq> 0 then (mem s8)(lpA := 0, q2 := pa)
      else (mem s8)(lpA := 0))(pa := rn2), FREE_LIST_ROOT := pa\<rparr>"
  have b3: "in_heap s3 p = in_heap s p" "in_heap s4 p = in_heap s p" "in_heap s5 p = in_heap s p"
    "in_heap s6 p = in_heap s p" "in_heap s8 p = in_heap s p"
    "in_heap s9 p = in_heap s p" for p
    by (simp_all add: s9_def s8_def s6_def s5_def s4_def s3_def s2_def s1_def)
  have m3: "mem s3 hB = PACK b 1" "mem s3 hA = PACK a 0" "mem s3 fA = PACK a 0"
    "mem s3 lpA = 0" "mem s3 pa = rn" "mem s3 hN = mem s hN"
    using ne0 ne_q1 by (simp_all add: s3_def s2_def s1_def vals)
  have m5: "mem s5 hB = PACK b 0" "mem s5 hA = PACK a 0" "mem s5 fA = PACK a 0"
    "mem s5 lpA = 0" "mem s5 pa = rn" "mem s5 hN = mem s hN"
    using ne0 by (simp_all add: s5_def s4_def m3)
  have m6: "mem s6 hB = PACK b 0" "mem s6 hA = PACK a 0"
    using ne_q1 by (simp_all add: s6_def m5)
  have fb: "fb_patching pa s5 = Some s6"
    using fb_patching_head [of s5 pa rn] inh L1(2)
    by (simp add: eqs b3 m5 s6_def q1_def)
  have hf2: "handle_free (pa + a) s5 = do { t \<leftarrow> add_free pa s8; Some (pa, t) }"
    using inh ne0
    by (simp add: handle_free_def PREV_BLKP_def NEXT_BLKP_def FTRP_def GET_SIZE_def GET_ALLOC_def
        READ_def WRITE_def eqs b3 m5 m6 vals dec fb s8_def [symmetric])
  have r8: "FREE_LIST_ROOT s8 = rn" by (simp add: s8_def s6_def)
  have m8rn: "mem s8 rn = mem s rn" if "rn \<noteq> 0"
    using that ne_rn [OF that] rnq1
    by (simp add: s8_def s6_def s5_def s4_def s3_def s2_def s1_def)
  have af2: "add_free pa s8 = Some s9"
  proof -
    have "rn2 = (if FREE_LIST_ROOT s8 = 0 then 0 else mem s8 (FREE_LIST_ROOT s8))"
      using m8rn by (simp add: r8 rn2_def)
    moreover have "FREE_LIST_ROOT s8 \<noteq> 0 \<Longrightarrow>
        in_heap s8 (FREE_LIST_ROOT s8) \<and> FREE_LIST_ROOT s8 \<noteq> PREVP pa"
      using L1(1) ne_rn by (simp add: r8 b3 eqs)
    moreover have "rn2 \<noteq> 0 \<Longrightarrow> in_heap s8 (PREVP rn2)"
      using L2(1) by (simp add: b3 q2_def)
    ultimately show ?thesis
      using add_free_gen [of s8 pa rn2] inh by (simp add: b3 eqs s9_def q2_def)
  qed
  have mf2: "mm_free (pa + a) s3 = Some s9"
    using inh
    by (simp add: mm_free_def FTRP_def GET_SIZE_def READ_def WRITE_def eqs m3 dec b3
        s4_def [symmetric] s5_def [symmetric] hf2 [unfolded eqs] af2)
  have m9: "mem s9 hA = PACK (a + b) 0" "mem s9 fB = PACK (a + b) 0"
    "mem s9 fP = PACK c 1" "mem s9 hN AND 1 = 1"
    using ne0 ne_q1 ne_q2
    by (simp_all add: s9_def s8_def s6_def s5_def s4_def s3_def s2_def s1_def vals
        add.commute [of b a])
  have root9: "FREE_LIST_ROOT s9 = pa" by (simp add: s9_def)
  have fB': "pa + (a + b) - DSIZE = fB" "HDRP (pa + (a + b)) = hN"
    by (simp_all add: fB_def hN_def pn_def pb_def add.assoc)
  show "do { s1 \<leftarrow> mm_free pa s; s2 \<leftarrow> mm_free (pa + a) s1;
              hdr \<leftarrow> READ s2 (HDRP pa); ftr \<leftarrow> READ s2 (pa + (a + b) - DSIZE);
              prev_ftr \<leftarrow> READ s2 (pa - DSIZE);
              next_alloc \<leftarrow> GET_ALLOC s2 (HDRP (pa + (a + b)));
              Some (hdr, ftr, FREE_LIST_ROOT s2, prev_ftr, next_alloc) }
         = Some (PACK (a + b) 0, PACK (a + b) 0, pa, PACK c 1, 1)"
    using inh fB'
    by (simp add: mf1 mf2 [unfolded eqs] READ_def GET_ALLOC_def b3 eqs m9 root9)
  (* freeing the upper block first *)
  define t2 where "t2 = s\<lparr>mem := (mem s)(hB := PACK b 0, fB := PACK b 0)\<rparr>"
  define t3 where "t3 = t2\<lparr>mem := (if rn \<noteq> 0 then (mem t2)(lpB := 0, q1 := pb)
      else (mem t2)(lpB := 0))(pb := rn), FREE_LIST_ROOT := pb\<rparr>"
  define t5 where "t5 = t3\<lparr>mem := (mem t3)(hA := PACK a 0, fA := PACK a 0)\<rparr>"
  define t6 where "t6 = t5\<lparr>FREE_LIST_ROOT := rn,
      mem := (if rn \<noteq> 0 then (mem t5)(q1 := 0) else mem t5)\<rparr>"
  define t8 where "t8 = t6\<lparr>mem := (mem t6)(hA := PACK (a + b) 0, fB := PACK (a + b) 0)\<rparr>"
  define t9 where "t9 = t8\<lparr>mem := (if rn2 \<noteq> 0 then (mem t8)(lpA := 0, q2 := pa)
      else (mem t8)(lpA := 0))(pa := rn2), FREE_LIST_ROOT := pa\<rparr>"
  have c3: "in_heap t2 p = in_heap s p" "in_heap t3 p = in_heap s p" "in_heap t5 p = in_heap s p"
    "in_heap t6 p = in_heap s p" "in_heap t8 p = in_heap s p" "in_heap t9 p = in_heap s p" for p
    by (simp_all add: t9_def t8_def t6_def t5_def t3_def t2_def)
  have n2: "mem t2 hB = PACK b 0" "mem t2 hA = PACK a 1" "mem t2 fA = PACK a 1"
    "mem t2 hN = mem s hN"
    using ne0 by (simp_all add: t2_def vals)
  have g1: "handle_free pb t2 = do { t \<leftarrow> add_free pb t2; Some (pb, t) }"
    using inh ne0
    by (simp add: handle_free_def PREV_BLKP_def NEXT_BLKP_def FTRP_def GET_SIZE_def GET_ALLOC_def
        READ_def eqs c3 n2 vals dec)
  have rt2: "FREE_LIST_ROOT t2 = r0" by (simp add: t2_def r0_def)
  have ag1: "add_free pb t2 = Some t3"
  proof -
    have "rn = (if FREE_LIST_ROOT t2 = 0 then 0 else mem t2 (FREE_LIST_ROOT t2))"
      using ne_r0 by (simp add: rt2 rn_def t2_def rs)
    moreover have "FREE_LIST_ROOT t2 \<noteq> 0 \<Longrightarrow>
        in_heap t2 (FREE_LIST_ROOT t2) \<and> FREE_LIST_ROOT t2 \<noteq> PREVP pb"
      using L0 ne_r0 by (simp add: rt2 c3 eqs)
    moreover have "rn \<noteq> 0 \<Longrightarrow> in_heap t2 (PREVP rn)"
      using L1(2) by (simp add: c3 q1_def)
    ultimately show ?thesis
      using add_free_gen [of t2 pb rn] inh by (simp add: c3 eqs t3_def q1_def)
  qed
  have mg1: "mm_free pb s = Some t3"
    using inh
    by (simp add: mm_free_def FTRP_def GET_SIZE_def READ_def WRITE_def eqs vals dec
        t2_def [symmetric] g1 ag1)
  have n3: "mem t3 hA = PACK a 1" "mem t3 hB = PACK b 0" "mem t3 lpB = 0" "mem t3 pb = rn"
    "mem t3 hP = PACK c 1" "mem t3 fP = PACK c 1"
    using ne0 ne_q1 by (simp_all add: t3_def t2_def vals)
  have n5: "mem t5 hA = PACK a 0" "mem t5 hB = PACK b 0" "mem t5 lpB = 0" "mem t5 pb = rn"
    "mem t5 hP = PACK c 1" "mem t5 fP = PACK c 1"
    using ne0 by (simp_all add: t5_def n3)
  have n6: "mem t6 hB = PACK b 0" "mem t6 hA = PACK a 0"
    using ne_q1 by (simp_all add: t6_def n5)
  have gb: "fb_patching pb t5 = Some t6"
    using fb_patching_head [of t5 pb rn] inh L1(2)
    by (simp add: eqs c3 n5 t6_def q1_def)
  have g2: "handle_free pa t5 = do { t \<leftarrow> add_free pa t8; Some (pa, t) }"
    using inh ne0
    by (simp add: handle_free_def PREV_BLKP_def NEXT_BLKP_def FTRP_def GET_SIZE_def GET_ALLOC_def
        READ_def WRITE_def eqs c3 n5 n6 vals dec gb t8_def [symmetric])
  have rt8: "FREE_LIST_ROOT t8 = rn" by (simp add: t8_def t6_def)
  have n8rn: "mem t8 rn = mem s rn" if "rn \<noteq> 0"
    using that ne_rn [OF that] rnq1
    by (simp add: t8_def t6_def t5_def t3_def t2_def)
  have ag2: "add_free pa t8 = Some t9"
  proof -
    have "rn2 = (if FREE_LIST_ROOT t8 = 0 then 0 else mem t8 (FREE_LIST_ROOT t8))"
      using n8rn by (simp add: rt8 rn2_def)
    moreover have "FREE_LIST_ROOT t8 \<noteq> 0 \<Longrightarrow>
        in_heap t8 (FREE_LIST_ROOT t8) \<and> FREE_LIST_ROOT t8 \<noteq> PREVP pa"
      using L1(1) ne_rn by (simp add: rt8 c3 eqs)
    moreover have "rn2 \<noteq> 0 \<Longrightarrow> in_heap t8 (PREVP rn2)"
      using L2(1) by (simp add: c3 q2_def)
    ultimately show ?thesis
      using add_free_gen [of t8 pa rn2] inh by (simp add: c3 eqs t9_def q2_def)
  qed
  have mg2: "mm_free pa t3 = Some t9"
    using inh
    by (simp add: mm_free_def FTRP_def GET_SIZE_def READ_def WRITE_def eqs n3 dec c3
        t5_def [symmetric] g2 ag2)
  have n9: "mem t9 hA = PACK (a + b) 0" "mem t9 fB = PACK (a + b) 0"
    "mem t9 fP = PACK c 1" "mem t9 hN AND 1 = 1"
    using ne0 ne_q1 ne_q2
    by (simp_all add: t9_def t8_def t6_def t5_def t3_def t2_def vals)
  have roott9: "FREE_LIST_ROOT t9 = pa" by (simp add: t9_def)
  show "do { s1 \<leftarrow> mm_free (pa + a) s; s2 \<leftarrow> mm_free pa s1;
              hdr \<leftarrow> READ s2 (HDRP pa); ftr \<leftarrow> READ s2 (pa + (a + b) - DSIZE);
              prev_ftr \<leftarrow> READ s2 (pa - DSIZE);
              next_alloc \<leftarrow> GET_ALLOC s2 (HDRP (pa + (a + b)));
              Some (hdr, ftr, FREE_LIST_ROOT s2, prev_ftr, next_alloc) }
         = Some (PACK (a + b) 0, PACK (a + b) 0, pa, PACK c 1, 1)"
    using inh fB' by (simp add: mg1 mg2 READ_def GET_ALLOC_def c3 eqs n9 roott9)
qed

text \<open>
  C6. For every pair of address-adjacent allocated blocks \<open>pa\<close> and \<open>pa + a\<close> of sizes \<open>a\<close>
  and \<open>b\<close> whose other neighbours are allocated (the block of size \<open>c\<close> in front of \<open>pa\<close>
  and the header after the upper block), freeing both blocks, in either order, leaves one
  free block of size \<open>a + b\<close> at the lower block's address: the header of \<open>pa\<close> and the
  footer of the upper block hold \<open>PACK(a + b, 0)\<close>, \<open>pa\<close> is the block put into the free
  list, and the tags of the two neighbours still say allocated. The blocks are
  well-formed blocks of the heap, and the first three nodes of the free list do not lie
  inside them, as for any allocated block.
\<close>

theorem free_adjacent_blocks_coalesce:
  assumes "alloc_block s pa a" and "alloc_block s (pa + a) b"
    and "alloc_block s (pa - c) c"
    and "GET_ALLOC s (HDRP (pa + a + b)) = Some 1"
    and "a AND 7 = 0" and "b AND 7 = 0" and "c AND 7 = 0"
    and "16 \<le> a" and "16 \<le> b" and "c \<noteq> 0"
    and "pa AND 3 = 0"
    and "unat (mem_heap s) + unat c + 4 \<le> unat pa"
    and "unat pa + unat a + unat b \<le> unat (mem_brk s)"
    and "list_clear 3 s (FREE_LIST_ROOT s) (HDRP (pa - c)) (c + a + b + WSIZE)"
  shows "do { s1 \<leftarrow> mm_free pa s; s2 \<leftarrow> mm_free (pa + a) s1;
              hdr \<leftarrow> READ s2 (HDRP pa); ftr \<leftarrow> READ s2 (pa + (a + b) - DSIZE);
              prev_ftr \<leftarrow> READ s2 (pa - DSIZE);
              next_alloc \<leftarrow> GET_ALLOC s2 (HDRP (pa + (a + b)));
              Some (hdr, ftr, FREE_LIST_ROOT s2, prev_ftr, next_alloc) }
         = Some (PACK (a + b) 0, PACK (a + b) 0, pa, PACK c 1, 1)
       \<and> do { s1 \<leftarrow> mm_free (pa + a) s; s2 \<leftarrow> mm_free pa s1;
              hdr \<leftarrow> READ s2 (HDRP pa); ftr \<leftarrow> READ s2 (pa + (a + b) - DSIZE);
              prev_ftr \<leftarrow> READ s2 (pa - DSIZE);
              next_alloc \<leftarrow> GET_ALLOC s2 (HDRP (pa + (a + b)));
              Some (hdr, ftr, FREE_LIST_ROOT s2, prev_ftr, next_alloc) }
         = Some (PACK (a + b) 0, PACK (a + b) 0, pa, PACK c 1, 1)"
  using free_adjacent_pair [OF assms] by (rule conjI)

theorem free_adjacent_blocks_coalesce_witness:
  "alloc_block heap3 4112 16 \<and> alloc_block heap3 (4112 + 16) 16 \<and> alloc_block heap3 (4112 - 8) 8
   \<and> GET_ALLOC heap3 (HDRP (4112 + 16 + 16)) = Some 1
   \<and> list_clear 3 heap3 (FREE_LIST_ROOT heap3) (HDRP (4112 - 8)) (8 + 16 + 16 + WSIZE)
   \<and> do { s1 \<leftarrow> mm_free 4112 heap3; s2 \<leftarrow> mm_free 4128 s1;
          hdr \<leftarrow> READ s2 (HDRP 4112); ftr \<leftarrow> READ s2 (4112 + 32 - DSIZE);
          prev_ftr \<leftarrow> READ s2 (4112 - DSIZE);
          next_alloc \<leftarrow> GET_ALLOC s2 (HDRP (4112 + 32));
          Some (hdr, ftr, FREE_LIST_ROOT s2, prev_ftr, next_alloc) }
       = Some (32, 32, 4112, 9, 1)
   \<and> do { s1 \<leftarrow> mm_free 4128 heap3; s2 \<leftarrow> mm_free 4112 s1;
          hdr \<leftarrow> READ s2 (HDRP 4112); ftr \<leftarrow> READ s2 (4112 + 32 - DSIZE);
          prev_ftr \<leftarrow> READ s2 (4112 - DSIZE);
          next_alloc \<leftarrow> GET_ALLOC s2 (HDRP (4112 + 32));
          Some (hdr, ftr, FREE_LIST_ROOT s2, prev_ftr, next_alloc) }
       = Some (32, 32, 4112, 9, 1)"
proof -
  have A: "alloc_block heap3 4112 16" and B: "alloc_block heap3 (4112 + 16) 16"
    and P: "alloc_block heap3 (4112 - 8) 8"
    and N: "GET_ALLOC heap3 (HDRP (4112 + 16 + 16)) = Some 1"
    by (simp_all add: alloc_block_def heap3_def macro_defs mem_defs)
  have sz: "(16 :: word32) AND 7 = 0" "(8 :: word32) AND 7 = 0" "(16 :: word32) \<le> 16"
    "(8 :: word32) \<noteq> 0" "(4112 :: word32) AND 3 = 0"
    by simp_all
  have lo: "unat (mem_heap heap3) + unat (8 :: word32) + 4 \<le> unat (4112 :: word32)"
    and hi: "unat (4112 :: word32) + unat (16 :: word32) + unat (16 :: word32)
      \<le> unat (mem_brk heap3)"
    by (simp_all add: heap3_def)
  have L: "list_clear 3 heap3 (FREE_LIST_ROOT heap3) (HDRP (4112 - 8)) (8 + 16 + 16 + WSIZE)"
    by (simp add: numeral_3_eq_3 heap3_def macro_defs in_heap_def)
  show ?thesis
    using A B P N L
      free_adjacent_blocks_coalesce [OF A B P N sz(1) sz(1) sz(2) sz(3) sz(3) sz(4) sz(5) lo hi L]
    by (simp add: PACK_def)
qed

end
